theory Spec2Isabelle
  imports Main "HOL-Library.Multiset"
begin

section \<open>Strings, as the Go standard library treats them\<close>

text \<open>
  A Go string is a byte sequence; here it is a \<open>string\<close> (a list of characters).
  Where \<open>strings.Index\<close> and \<open>strings.LastIndex\<close> return \<open>-1\<close>, the model
  returns \<open>None\<close>; the source's test \<open>i >= 0\<close> is the case \<open>Some i\<close>.
\<close>

definition HasPrefix :: "string \<Rightarrow> string \<Rightarrow> bool" where
  "HasPrefix s p = (take (length p) s = p)"

fun Index :: "string \<Rightarrow> string \<Rightarrow> nat option" where
  "Index [] sub = (if sub = [] then Some 0 else None)"
| "Index (c # cs) sub =
     (if HasPrefix (c # cs) sub then Some 0 else map_option Suc (Index cs sub))"

fun LastIndex :: "string \<Rightarrow> string \<Rightarrow> nat option" where
  "LastIndex [] sub = (if sub = [] then Some 0 else None)"
| "LastIndex (c # cs) sub =
     (case LastIndex cs sub of
        Some i \<Rightarrow> Some (Suc i)
      | None \<Rightarrow> if HasPrefix (c # cs) sub then Some 0 else None)"

text \<open>
  \<open>s[lo:hi]\<close>. Every slice of the source has \<open>lo \<le> hi \<le> len(s)\<close> (the bounds
  come from \<open>Index\<close> and \<open>LastIndex\<close> on a prefix or suffix of \<open>s\<close>), so the
  run-time panic of an out-of-range slice cannot happen and is not modelled.
\<close>

definition slice :: "string \<Rightarrow> nat \<Rightarrow> nat \<Rightarrow> string" where
  "slice s lo hi = take (hi - lo) (drop lo s)"

section \<open>Errors\<close>

text \<open>
  \<open>GoogleApiError c\<close> is a \<open>*googleapi.Error\<close> with HTTP status \<open>c\<close>;
  \<open>PlainError\<close> is an error made by \<open>errors.New\<close> or \<open>errors.Errorf\<close> (or any
  failure of the transport); \<open>Wrap e msg\<close> is \<open>errors.Wrap(e, msg)\<close>, which is no
  longer a \<open>*googleapi.Error\<close> for a type assertion.
\<close>

datatype error = GoogleApiError int | PlainError string | Wrap error string

section \<open>Self-link parsing (autolbclean.go)\<close>

text \<open>
  The parsers have named results \<open>(name, region, err)\<close>: on an early return the
  results assigned so far are returned with the error, and two callers ignore the
  error and use them. The model returns the triple.
\<close>

definition parseURL :: "string \<Rightarrow> string \<Rightarrow> string \<times> string \<times> error option" where
  "parseURL s keyword =
     (case Index s (''/'' @ keyword) of
        None \<Rightarrow> ('''', '''', Some (PlainError (''failed to find keyword '' @ keyword)))
      | Some pos \<Rightarrow>
          (case LastIndex (take pos s) ''/'' of
             None \<Rightarrow> ('''', '''', Some (PlainError ''failed to find region''))
           | Some i \<Rightarrow>
               (let region = slice s (i + 1) pos in
                case LastIndex (drop pos s) ''/'' of
                  None \<Rightarrow> ('''', region, Some (PlainError ''failed to find name''))
                | Some j \<Rightarrow> (drop (pos + j + 1) s, region, None))))"

definition ParseUrlMap :: "string \<Rightarrow> string \<times> string \<times> error option" where
  "ParseUrlMap s =
     (case Index s ''/urlMaps'' of
        None \<Rightarrow> ('''', '''', Some (PlainError ''failed to find keyword urlMaps''))
      | Some pos \<Rightarrow>
          (case LastIndex (take pos s) ''/'' of
             None \<Rightarrow> ('''', '''', Some (PlainError ''failed to find region''))
           | Some i \<Rightarrow>
               (let region = slice s (i + 1) pos in
                case LastIndex (drop pos s) ''/'' of
                  None \<Rightarrow> ('''', region, Some (PlainError ''failed to find name''))
                | Some j \<Rightarrow> (drop (pos + j + 1) s, region, None))))"

definition ParseInstanceGroup :: "string \<Rightarrow> string \<times> string \<times> error option" where
  "ParseInstanceGroup s =
     (case Index s ''/instanceGroups'' of
        None \<Rightarrow> ('''', '''', Some (PlainError ''failed to find keyword instanceGroups''))
      | Some pos \<Rightarrow>
          (case LastIndex (take pos s) ''/'' of
             None \<Rightarrow> ('''', '''', Some (PlainError ''failed to find zone''))
           | Some i \<Rightarrow>
               (let zone = slice s (i + 1) pos in
                case LastIndex (drop pos s) ''/'' of
                  None \<Rightarrow> ('''', zone, Some (PlainError ''failed to find name''))
                | Some j \<Rightarrow> (drop (pos + j + 1) s, zone, None))))"

text \<open>\<open>ParseTargetProxy\<close> returns \<open>(name, region, isHTTPs, err)\<close>.\<close>

definition ParseTargetProxy :: "string \<Rightarrow> string \<times> string \<times> bool \<times> error option" where
  "ParseTargetProxy s =
     (case (case Index s ''/targetHttpProxies'' of
              Some i \<Rightarrow> Some (i, False)
            | None \<Rightarrow>
                (case Index s ''/targetHttpsProxies'' of
                   Some i \<Rightarrow> Some (i, True)
                 | None \<Rightarrow> None)) of
        None \<Rightarrow>
          ('''', '''', False,
           Some (PlainError ''failed to find keywords targetHttpProxies or targetHttpsProxies''))
      | Some (pos, isHTTPs) \<Rightarrow>
          (case LastIndex (take pos s) ''/'' of
             None \<Rightarrow> ('''', '''', isHTTPs, Some (PlainError ''failed to find region''))
           | Some i \<Rightarrow>
               (let region = slice s (i + 1) pos in
                case LastIndex (drop pos s) ''/'' of
                  None \<Rightarrow> ('''', region, isHTTPs, Some (PlainError ''failed to find name''))
                | Some j \<Rightarrow> (drop (pos + j + 1) s, region, isHTTPs, None))))"

definition ParseService :: "string \<Rightarrow> string \<times> string \<times> error option" where
  "ParseService s = parseURL s ''backendServices''"

definition ParseSslCertificates :: "string \<Rightarrow> string \<times> string \<times> error option" where
  "ParseSslCertificates s = parseURL s ''sslCertificates''"

definition ParseBackendServices :: "string \<Rightarrow> string \<times> string \<times> error option" where
  "ParseBackendServices s = parseURL s ''backendServices''"

definition ParseHealthChecks :: "string \<Rightarrow> string \<times> string \<times> error option" where
  "ParseHealthChecks s = parseURL s ''healthChecks''"

section \<open>Time\<close>

text \<open>
  A \<open>time.Time\<close> is an instant, counted here in nanoseconds since Go's zero time
  (January 1, year 1, 00:00:00 UTC), so that the zero value \<open>time.Time{}\<close> is \<open>0\<close>;
  a \<open>time.Duration\<close> is a number of nanoseconds. \<open>t.After(u)\<close> is \<open>u < t\<close>.
\<close>

type_synonym time = int

definition zeroTime :: time where
  "zeroTime = 0"

definition Minute :: int where
  "Minute = 60 * 1000000000"

definition Hour :: int where
  "Hour = 60 * Minute"

definition After :: "time \<Rightarrow> time \<Rightarrow> bool" where
  "After t u = (u < t)"

section \<open>The cloud API, the work queue and HTTP requests\<close>

text \<open>
  The fields of the \<open>compute\<close> resources that the program reads. The tags of an
  instance are \<open>instance.Tags.Items\<close>; \<open>instance.Tags\<close> is taken to be present.
\<close>

record TargetHttpProxy =
  tp_Name :: string
  tp_UrlMap :: string
  tp_CreationTimestamp :: string

record TargetHttpsProxy =
  tps_Name :: string
  tps_SslCertificates :: "string list"
  tps_UrlMap :: string
  tps_CreationTimestamp :: string

record PathRule =
  pr_Service :: string

record PathMatcher =
  pm_PathRules :: "PathRule list"

record UrlMap =
  um_PathMatchers :: "PathMatcher list"

record Backend =
  be_Group :: string

record BackendService =
  bs_Name :: string
  bs_SelfLink :: string
  bs_HealthChecks :: "string list"
  bs_Backends :: "Backend list"

record Firewall =
  fw_Name :: string
  fw_TargetTags :: "string list"

record Instance =
  inst_Tags :: "string list"

text \<open>
  The delete calls of the API. The project argument is \<open>app.project\<close> in every call
  and is left out; a regional call carries the region first, as in the source.
\<close>

datatype api_call =
    GlobalForwardingRulesDelete string
  | ForwardingRulesDelete string string
  | UrlMapsDelete string
  | BackendServicesDelete string
  | RegionBackendServicesDelete string string
  | SslCertificatesDelete string
  | TargetPoolsDelete string string
  | HealthChecksDelete string
  | TargetHttpsProxiesDelete string
  | TargetHttpProxiesDelete string
  | FirewallsDelete string

text \<open>
  What the world outside the repository answers: the compute API (every call may fail),
  \<open>AppengineApp\<close> (the client singleton, which may fail to build), and the two
  functions of package \<open>time\<close> for the RFC3339 layout. The answer to a firewall
  delete may depend on the deletes already issued in the same pass (their names are the
  first argument). \<open>RangeOrder\<close> is the order in which a \<open>range\<close> loop visits the
  entries of a Go map, which the language leaves unspecified.
\<close>

record env =
  AppengineAppOk :: bool
  ParseRFC3339 :: "string \<Rightarrow> time option"
  FormatRFC3339 :: "time \<Rightarrow> string"
  Delete :: "api_call \<Rightarrow> error option"
  GetTargetHttpsProxy :: "string \<Rightarrow> error + TargetHttpsProxy"
  GetTargetHttpProxy :: "string \<Rightarrow> error + TargetHttpProxy"
  GetUrlMap :: "string \<Rightarrow> error + UrlMap"
  BackendServicesGet :: "string \<Rightarrow> error + BackendService"
  InstanceGroupsListInstances :: "string \<Rightarrow> string \<Rightarrow> error + string list"
  FirewallsList :: "error + Firewall list"
  ZonesList :: "error + string list"
  InstancesList :: "string \<Rightarrow> error + Instance list"
  FirewallsDeleteDo :: "string list \<Rightarrow> string \<Rightarrow> error option"
  RangeOrder :: "(string \<times> Firewall list) list \<Rightarrow> (string \<times> Firewall list) list"

text \<open>
  A task of the work queue: \<open>taskqueue.NewPOSTTask(path, params)\<close>. A request is the
  form of a delivered task; \<open>r.FormValue\<close> of a missing key is the empty string.
\<close>

type_synonym request = "(string \<times> string) list"

record task =
  task_path :: string
  task_params :: request

definition FormValue :: "request \<Rightarrow> string \<Rightarrow> string" where
  "FormValue r k = (case map_of r k of None \<Rightarrow> '''' | Some v \<Rightarrow> v)"

text \<open>
  \<open>strconv.FormatBool\<close>, and \<open>strconv.ParseBool\<close> with its error discarded (the
  value is then \<open>false\<close>).
\<close>

definition FormatBool :: "bool \<Rightarrow> string" where
  "FormatBool b = (if b then ''true'' else ''false'')"

definition ParseBool :: "string \<Rightarrow> bool" where
  "ParseBool s = (s \<in> set [''1'', ''t'', ''T'', ''TRUE'', ''true'', ''True''])"

text \<open>
  What a handler did: the status it answered with, and the delete calls it issued, in
  order. The work queue takes a status from 200 to 299 as success and redelivers the
  task on any other.
\<close>

record response =
  resp_status :: nat
  resp_calls :: "api_call list"

definition acknowledged :: "response \<Rightarrow> bool" where
  "acknowledged w = (200 \<le> resp_status w \<and> resp_status w < 300)"

section \<open>The deletion workers (app.go)\<close>

text \<open>
  \<open>handleJobError\<close> answers 500 unless the error is a \<open>*googleapi.Error\<close> with
  code 404, in which case it answers 204 and the queue stops retrying. The model gives
  the status written.
\<close>

definition handleJobError :: "error \<Rightarrow> nat" where
  "handleJobError e =
     (case e of
        GoogleApiError code \<Rightarrow> if code \<noteq> 404 then 500 else 204
      | _ \<Rightarrow> 500)"

text \<open>\<open>isExpired\<close>: the form value \<open>expires\<close> does not parse, or lies before now.\<close>

definition isExpired :: "env \<Rightarrow> time \<Rightarrow> request \<Rightarrow> bool" where
  "isExpired env now r =
     (case ParseRFC3339 env (FormValue r ''expires'') of
        None \<Rightarrow> True
      | Some expires \<Rightarrow> After now expires)"

text \<open>
  Every delete handler takes the API answers, the reading of the clock in
  \<open>isExpired\<close>, and the request. A failure of \<open>AppengineApp\<close> is answered with
  status 200.
\<close>

definition httpForwardingRulesDelete :: "env \<Rightarrow> time \<Rightarrow> request \<Rightarrow> response" where
  "httpForwardingRulesDelete env now r =
     (if isExpired env now r then \<lparr>resp_status = 204, resp_calls = []\<rparr>
      else if \<not> AppengineAppOk env then \<lparr>resp_status = 200, resp_calls = []\<rparr>
      else
        (let name = FormValue r ''name''; region = FormValue r ''region'' in
         if region = ''global'' then
           (case Delete env (GlobalForwardingRulesDelete name) of
              Some err \<Rightarrow>
                \<lparr>resp_status = handleJobError err,
                 resp_calls = [GlobalForwardingRulesDelete name]\<rparr>
            | None \<Rightarrow> \<lparr>resp_status = 204, resp_calls = [GlobalForwardingRulesDelete name]\<rparr>)
         else
           (case Delete env (ForwardingRulesDelete region name) of
              Some err \<Rightarrow>
                \<lparr>resp_status = handleJobError err,
                 resp_calls = [ForwardingRulesDelete region name]\<rparr>
            | None \<Rightarrow> \<lparr>resp_status = 204, resp_calls = [ForwardingRulesDelete region name]\<rparr>)))"

definition httpUrlMapsDelete :: "env \<Rightarrow> time \<Rightarrow> request \<Rightarrow> response" where
  "httpUrlMapsDelete env now r =
     (if isExpired env now r then \<lparr>resp_status = 204, resp_calls = []\<rparr>
      else if \<not> AppengineAppOk env then \<lparr>resp_status = 200, resp_calls = []\<rparr>
      else
        (let name = FormValue r ''name'' in
         case Delete env (UrlMapsDelete name) of
           Some err \<Rightarrow> \<lparr>resp_status = handleJobError err, resp_calls = [UrlMapsDelete name]\<rparr>
         | None \<Rightarrow> \<lparr>resp_status = 204, resp_calls = [UrlMapsDelete name]\<rparr>))"

definition httpBackendServicesDelete :: "env \<Rightarrow> time \<Rightarrow> request \<Rightarrow> response" where
  "httpBackendServicesDelete env now r =
     (if isExpired env now r then \<lparr>resp_status = 204, resp_calls = []\<rparr>
      else if \<not> AppengineAppOk env then \<lparr>resp_status = 200, resp_calls = []\<rparr>
      else
        (let name = FormValue r ''name''; region = FormValue r ''region'' in
         if region = ''global'' then
           (case Delete env (BackendServicesDelete name) of
              Some err \<Rightarrow>
                \<lparr>resp_status = handleJobError err, resp_calls = [BackendServicesDelete name]\<rparr>
            | None \<Rightarrow> \<lparr>resp_status = 204, resp_calls = [BackendServicesDelete name]\<rparr>)
         else
           (case Delete env (RegionBackendServicesDelete region name) of
              Some err \<Rightarrow>
                \<lparr>resp_status = handleJobError err,
                 resp_calls = [RegionBackendServicesDelete region name]\<rparr>
            | None \<Rightarrow>
                \<lparr>resp_status = 204, resp_calls = [RegionBackendServicesDelete region name]\<rparr>)))"

definition httpSslCertificatesDelete :: "env \<Rightarrow> time \<Rightarrow> request \<Rightarrow> response" where
  "httpSslCertificatesDelete env now r =
     (if isExpired env now r then \<lparr>resp_status = 204, resp_calls = []\<rparr>
      else if \<not> AppengineAppOk env then \<lparr>resp_status = 200, resp_calls = []\<rparr>
      else
        (let name = FormValue r ''name'' in
         case Delete env (SslCertificatesDelete name) of
           Some err \<Rightarrow>
             \<lparr>resp_status = handleJobError err, resp_calls = [SslCertificatesDelete name]\<rparr>
         | None \<Rightarrow> \<lparr>resp_status = 204, resp_calls = [SslCertificatesDelete name]\<rparr>))"

definition httpTargetPoolsDelete :: "env \<Rightarrow> time \<Rightarrow> request \<Rightarrow> response" where
  "httpTargetPoolsDelete env now r =
     (if isExpired env now r then \<lparr>resp_status = 204, resp_calls = []\<rparr>
      else if \<not> AppengineAppOk env then \<lparr>resp_status = 200, resp_calls = []\<rparr>
      else
        (let name = FormValue r ''name''; region = FormValue r ''region'' in
         case Delete env (TargetPoolsDelete region name) of
           Some err \<Rightarrow>
             \<lparr>resp_status = handleJobError err, resp_calls = [TargetPoolsDelete region name]\<rparr>
         | None \<Rightarrow> \<lparr>resp_status = 204, resp_calls = [TargetPoolsDelete region name]\<rparr>))"

definition httpHealthChecksDelete :: "env \<Rightarrow> time \<Rightarrow> request \<Rightarrow> response" where
  "httpHealthChecksDelete env now r =
     (if isExpired env now r then \<lparr>resp_status = 204, resp_calls = []\<rparr>
      else if \<not> AppengineAppOk env then \<lparr>resp_status = 200, resp_calls = []\<rparr>
      else
        (let name = FormValue r ''name'' in
         case Delete env (HealthChecksDelete name) of
           Some err \<Rightarrow>
             \<lparr>resp_status = handleJobError err, resp_calls = [HealthChecksDelete name]\<rparr>
         | None \<Rightarrow> \<lparr>resp_status = 204, resp_calls = [HealthChecksDelete name]\<rparr>))"

definition httpTargetProxiesDelete :: "env \<Rightarrow> time \<Rightarrow> request \<Rightarrow> response" where
  "httpTargetProxiesDelete env now r =
     (if isExpired env now r then \<lparr>resp_status = 204, resp_calls = []\<rparr>
      else if \<not> AppengineAppOk env then \<lparr>resp_status = 200, resp_calls = []\<rparr>
      else
        (let name = FormValue r ''name''; isHTTPs = ParseBool (FormValue r ''https'') in
         if isHTTPs then
           (case Delete env (TargetHttpsProxiesDelete name) of
              Some err \<Rightarrow>
                \<lparr>resp_status = handleJobError err, resp_calls = [TargetHttpsProxiesDelete name]\<rparr>
            | None \<Rightarrow> \<lparr>resp_status = 204, resp_calls = [TargetHttpsProxiesDelete name]\<rparr>)
         else
           (case Delete env (TargetHttpProxiesDelete name) of
              Some err \<Rightarrow>
                \<lparr>resp_status = handleJobError err, resp_calls = [TargetHttpProxiesDelete name]\<rparr>
            | None \<Rightarrow> \<lparr>resp_status = 204, resp_calls = [TargetHttpProxiesDelete name]\<rparr>)))"

text \<open>
  The registrations of \<open>init\<close> for the deletion tasks, in the order of the source
  (the two \<open>check\<close> endpoints start a pass and are not deliveries of a deletion task).
  \<open>serve\<close> is the dispatch of \<open>net/http\<close>: the handler registered for the exact
  path, and 404 for a path that has none.
\<close>

definition routes :: "(string \<times> (env \<Rightarrow> time \<Rightarrow> request \<Rightarrow> response)) list" where
  "routes =
     [(''/job/forwarding-rules/delete'', httpForwardingRulesDelete),
      (''/job/url-maps/delete'', httpUrlMapsDelete),
      (''/job/ssl-certificates/delete'', httpBackendServicesDelete),
      (''/job/backend-services/delete'', httpBackendServicesDelete),
      (''/job/target-pools/delete'', httpTargetPoolsDelete),
      (''/job/target-http-proxies/delete'', httpTargetProxiesDelete),
      (''/job/health-checks/delete'', httpHealthChecksDelete)]"

definition serve :: "env \<Rightarrow> time \<Rightarrow> string \<Rightarrow> request \<Rightarrow> response" where
  "serve env now path r =
     (case map_of routes path of
        None \<Rightarrow> \<lparr>resp_status = 404, resp_calls = []\<rparr>
      | Some h \<Rightarrow> h env now r)"

section \<open>Resolving a url map to its instances (autolbclean.go)\<close>

text \<open>
  \<open>FindBackendServices\<close>: the two nested loops over the path matchers and their path
  rules, with the list built so far as an accumulator. The first link that does not
  parse, or the first failing \<open>BackendServices.Get\<close>, ends the call with the error.
\<close>

fun findInPathRules ::
  "env \<Rightarrow> PathRule list \<Rightarrow> BackendService list \<Rightarrow> error + BackendService list" where
  "findInPathRules env [] list = Inr list"
| "findInPathRules env (pr # prs) list =
     (case ParseService (pr_Service pr) of
        (sname, region, Some err) \<Rightarrow> Inl (Wrap err ''failed to parse backend service url'')
      | (sname, region, None) \<Rightarrow>
          (case BackendServicesGet env sname of
             Inl err \<Rightarrow> Inl (Wrap err ''failed to get backend service'')
           | Inr s \<Rightarrow> findInPathRules env prs (list @ [s])))"

fun findInPathMatchers ::
  "env \<Rightarrow> PathMatcher list \<Rightarrow> BackendService list \<Rightarrow> error + BackendService list" where
  "findInPathMatchers env [] list = Inr list"
| "findInPathMatchers env (pm # pms) list =
     (case findInPathRules env (pm_PathRules pm) list of
        Inl err \<Rightarrow> Inl err
      | Inr list' \<Rightarrow> findInPathMatchers env pms list')"

definition FindBackendServices :: "env \<Rightarrow> UrlMap \<Rightarrow> error + BackendService list" where
  "FindBackendServices env um = findInPathMatchers env (um_PathMatchers um) []"

text \<open>
  \<open>ListInstancesForService\<close>: the loop over the backends of a service. A group link
  that does not parse ends the call with the error; a failing \<open>ListInstances\<close> is
  skipped (\<open>continue\<close>).
\<close>

fun listInstancesForBackends ::
  "env \<Rightarrow> Backend list \<Rightarrow> string list \<Rightarrow> error + string list" where
  "listInstancesForBackends env [] list = Inr list"
| "listInstancesForBackends env (backend # backends) list =
     (case ParseInstanceGroup (be_Group backend) of
        (name, zone, Some err) \<Rightarrow> Inl (Wrap err ''failed to parse instance group url'')
      | (name, zone, None) \<Rightarrow>
          (case InstanceGroupsListInstances env zone name of
             Inl err \<Rightarrow> listInstancesForBackends env backends list
           | Inr items \<Rightarrow> listInstancesForBackends env backends (list @ items)))"

definition ListInstancesForService :: "env \<Rightarrow> BackendService \<Rightarrow> error + string list" where
  "ListInstancesForService env s = listInstancesForBackends env (bs_Backends s) []"

section \<open>Classification and planning (app.go)\<close>

text \<open>The loop of lines 212 to 219; \<open>tot\<close> is the variable \<open>total\<close> of the source.\<close>

fun sumInstances :: "env \<Rightarrow> BackendService list \<Rightarrow> int \<Rightarrow> error + int" where
  "sumInstances env [] tot = Inr tot"
| "sumInstances env (service # services) tot =
     (case ListInstancesForService env service of
        Inl err \<Rightarrow> Inl (Wrap err ''failed to list instances for service'')
      | Inr instances \<Rightarrow> sumInstances env services (tot + int (length instances)))"

text \<open>
  The loops that append to \<open>tasks\<close> (lines 237 to 268). A certificate link that does
  not parse is skipped; the errors of \<open>ParseBackendServices\<close> and
  \<open>ParseHealthChecks\<close> are discarded and the results they return are used.
\<close>

fun certificateTasks :: "string \<Rightarrow> string list \<Rightarrow> task list \<Rightarrow> task list" where
  "certificateTasks expires [] tasks = tasks"
| "certificateTasks expires (cert # certs) tasks =
     (case ParseSslCertificates cert of
        (certName, _, Some err) \<Rightarrow> certificateTasks expires certs tasks
      | (certName, _, None) \<Rightarrow>
          certificateTasks expires certs
            (tasks @ [\<lparr>task_path = ''/job/ssl-certificates/delete'',
                       task_params = [(''name'', certName), (''expires'', expires)]\<rparr>]))"

fun healthCheckTasks :: "string \<Rightarrow> string list \<Rightarrow> task list \<Rightarrow> task list" where
  "healthCheckTasks expires [] tasks = tasks"
| "healthCheckTasks expires (hc # hcs) tasks =
     (case ParseHealthChecks hc of
        (name, _, _) \<Rightarrow>
          healthCheckTasks expires hcs
            (tasks @ [\<lparr>task_path = ''/job/health-checks/delete'',
                       task_params = [(''name'', name), (''expires'', expires)]\<rparr>]))"

fun serviceTasks :: "string \<Rightarrow> BackendService list \<Rightarrow> task list \<Rightarrow> task list" where
  "serviceTasks expires [] tasks = tasks"
| "serviceTasks expires (service # services) tasks =
     (case ParseBackendServices (bs_SelfLink service) of
        (_, bsRegion, _) \<Rightarrow>
          serviceTasks expires services
            (healthCheckTasks expires (bs_HealthChecks service)
               (tasks @ [\<lparr>task_path = ''/job/backend-services/delete'',
                          task_params = [(''name'', bs_Name service), (''region'', bsRegion),
                                         (''expires'', expires)]\<rparr>])))"

text \<open>
  Lines 227 to 286: the tasks added to the queue once the total is 0. \<open>now\<close> is the
  reading of the clock at line 227.
\<close>

definition planTasks ::
  "env \<Rightarrow> time \<Rightarrow> string \<Rightarrow> string \<Rightarrow> string \<Rightarrow> bool \<Rightarrow> string list \<Rightarrow>
   BackendService list \<Rightarrow> string \<Rightarrow> task list" where
  "planTasks env now fwname region tpName isHTTPs certificates services umname =
     (let expires = FormatRFC3339 env (now + 15 * Minute);
          tasks = [\<lparr>task_path = ''/job/target-http-proxies/delete'',
                    task_params = [(''name'', tpName), (''https'', FormatBool isHTTPs),
                                   (''expires'', expires)]\<rparr>];
          tasks = (if isHTTPs then certificateTasks expires certificates tasks else tasks);
          tasks = serviceTasks expires services tasks;
          tasks = tasks @ [\<lparr>task_path = ''/job/url-maps/delete'',
                            task_params = [(''name'', umname), (''expires'', expires)]\<rparr>];
          tasks = (if length fwname > 0
                   then tasks @ [\<lparr>task_path = ''/job/forwarding-rules/delete'',
                                   task_params = [(''name'', fwname), (''region'', region),
                                                  (''expires'', expires)]\<rparr>]
                   else tasks)
      in tasks)"

text \<open>
  Lines 168 to 189: the proxy is fetched, as an HTTPS or an HTTP proxy, and its name,
  certificates (none for HTTP), url map link and creation timestamp are kept.
\<close>

definition getTargetProxy ::
  "env \<Rightarrow> string \<Rightarrow> bool \<Rightarrow> error + (string \<times> string list \<times> string \<times> string)" where
  "getTargetProxy env tpname isHTTPs =
     (if isHTTPs then
        (case GetTargetHttpsProxy env tpname of
           Inl err \<Rightarrow> Inl (Wrap err ''failed to get target https proxy'')
         | Inr tp \<Rightarrow>
             Inr (tps_Name tp, tps_SslCertificates tp, tps_UrlMap tp, tps_CreationTimestamp tp))
      else
        (case GetTargetHttpProxy env tpname of
           Inl err \<Rightarrow> Inl (Wrap err ''failed to get target http proxy'')
         | Inr tp \<Rightarrow> Inr (tp_Name tp, [], tp_UrlMap tp, tp_CreationTimestamp tp)))"

text \<open>
  \<open>checkAndDeleteTargetProxiesIfApplicable\<close>. The function reads the clock twice:
  \<open>now1\<close> at line 191 (the grace window) and \<open>now2\<close> at line 227 (the expiry). The
  error of \<open>time.Parse\<close> is discarded, and the time it returns with an error is the
  zero time. The result is the error returned, or the tasks added to the queue before
  returning \<open>nil\<close> (none when the proxy is young or an instance is left).
\<close>

definition checkAndDeleteTargetProxiesIfApplicable ::
  "env \<Rightarrow> time \<Rightarrow> time \<Rightarrow> string \<Rightarrow> string \<Rightarrow> string \<Rightarrow> bool \<Rightarrow> error + task list" where
  "checkAndDeleteTargetProxiesIfApplicable env now1 now2 fwname region tpname isHTTPs =
     (case getTargetProxy env tpname isHTTPs of
        Inl err \<Rightarrow> Inl err
      | Inr (tpName, certificates, urlMapURL, timestamp) \<Rightarrow>
          (let t = (case ParseRFC3339 env timestamp of None \<Rightarrow> zeroTime | Some t \<Rightarrow> t) in
           if After t (now1 + (- 1) * Hour) then Inr []
           else
             (case ParseUrlMap urlMapURL of
                (umname, _, Some err) \<Rightarrow> Inl (Wrap err ''failed to parse url map selflink'')
              | (umname, _, None) \<Rightarrow>
                  (case GetUrlMap env umname of
                     Inl err \<Rightarrow> Inl (Wrap err ''failed to get url map'')
                   | Inr um \<Rightarrow>
                       (case FindBackendServices env um of
                          Inl err \<Rightarrow> Inl (Wrap err ''failed to find backend services'')
                        | Inr services \<Rightarrow>
                            (case sumInstances env services 0 of
                               Inl err \<Rightarrow> Inl err
                             | Inr tot \<Rightarrow>
                                 if tot > 0 then Inr []
                                 else
                                   Inr (planTasks env now2 fwname region tpName isHTTPs
                                          certificates services umname)))))))"

section \<open>The firewall pass\<close>

text \<open>
  \<open>tags2fws\<close> is a Go map from a tag to the list of firewalls that name it. The model
  is an association list with one entry for a key; a missing key reads as the empty
  list, as \<open>tags2fws[tag]\<close> reads as \<open>nil\<close>. The order of the list carries no
  meaning: the one loop over the map (line 279) visits the entries in the order that
  \<open>RangeOrder\<close> gives.
\<close>

type_synonym tags2fws = "(string \<times> Firewall list) list"

text \<open>\<open>tags2fws[tag] = append(tags2fws[tag], fw)\<close>\<close>

fun mapAppend :: "tags2fws \<Rightarrow> string \<Rightarrow> Firewall \<Rightarrow> tags2fws" where
  "mapAppend [] tag fw = [(tag, [fw])]"
| "mapAppend ((k, fws) # m) tag fw =
     (if k = tag then (k, fws @ [fw]) # m else (k, fws) # mapAppend m tag fw)"

text \<open>\<open>delete(tags2fws, tag)\<close>\<close>

fun mapDelete :: "tags2fws \<Rightarrow> string \<Rightarrow> tags2fws" where
  "mapDelete [] tag = []"
| "mapDelete ((k, fws) # m) tag =
     (if k = tag then mapDelete m tag else (k, fws) # mapDelete m tag)"

text \<open>The loops of lines 238 to 247 of \<open>ListDanglingFirewalls\<close>.\<close>

fun addTargetTags :: "Firewall \<Rightarrow> string list \<Rightarrow> tags2fws \<Rightarrow> tags2fws" where
  "addTargetTags fw [] m = m"
| "addTargetTags fw (tag # tags) m =
     (if \<not> HasPrefix tag ''gke-'' then addTargetTags fw tags m
      else addTargetTags fw tags (mapAppend m tag fw))"

fun addFirewalls :: "Firewall list \<Rightarrow> tags2fws \<Rightarrow> tags2fws" where
  "addFirewalls [] m = m"
| "addFirewalls (fw # fws) m = addFirewalls fws (addTargetTags fw (fw_TargetTags fw) m)"

text \<open>The loops of lines 257 to 276: every tag seen on an instance leaves the map.\<close>

fun dropTags :: "string list \<Rightarrow> tags2fws \<Rightarrow> tags2fws" where
  "dropTags [] m = m"
| "dropTags (tag # tags) m =
     (if \<not> HasPrefix tag ''gke-'' then dropTags tags m
      else dropTags tags (mapDelete m tag))"

fun dropInstances :: "Instance list \<Rightarrow> tags2fws \<Rightarrow> tags2fws" where
  "dropInstances [] m = m"
| "dropInstances (instance # instances) m =
     dropInstances instances (dropTags (inst_Tags instance) m)"

fun scanZones :: "env \<Rightarrow> string list \<Rightarrow> tags2fws \<Rightarrow> error + tags2fws" where
  "scanZones env [] m = Inr m"
| "scanZones env (zone # zones) m =
     (if length m = 0 then Inr m
      else
        (case InstancesList env zone of
           Inl err \<Rightarrow> Inl (Wrap err ''failed to list instances'')
         | Inr instances \<Rightarrow> scanZones env zones (dropInstances instances m)))"

definition ListDanglingFirewalls :: "env \<Rightarrow> error + Firewall list" where
  "ListDanglingFirewalls env =
     (case FirewallsList env of
        Inl err \<Rightarrow> Inl (Wrap err ''failed to list firewall rules'')
      | Inr firewalls \<Rightarrow>
          (let m = addFirewalls firewalls [] in
           case ZonesList env of
             Inl err \<Rightarrow> Inl (Wrap err ''faild to list zones'')
           | Inr zones \<Rightarrow>
               (case scanZones env zones m of
                  Inl err \<Rightarrow> Inl err
                | Inr m' \<Rightarrow> Inr (concat (map snd (RangeOrder env m'))))))"

text \<open>
  \<open>httpFirewallsCheck\<close>: the delete loop stops at the first failing delete;
  \<open>issued\<close> holds the names of the deletes issued so far.
\<close>

fun deleteFirewalls :: "env \<Rightarrow> Firewall list \<Rightarrow> string list \<Rightarrow> response" where
  "deleteFirewalls env [] issued =
     \<lparr>resp_status = 204, resp_calls = map FirewallsDelete issued\<rparr>"
| "deleteFirewalls env (fw # fws) issued =
     (case FirewallsDeleteDo env issued (fw_Name fw) of
        Some err \<Rightarrow>
          \<lparr>resp_status = handleJobError err,
           resp_calls = map FirewallsDelete (issued @ [fw_Name fw])\<rparr>
      | None \<Rightarrow> deleteFirewalls env fws (issued @ [fw_Name fw]))"

definition httpFirewallsCheck :: "env \<Rightarrow> response" where
  "httpFirewallsCheck env =
     (if \<not> AppengineAppOk env then \<lparr>resp_status = 200, resp_calls = []\<rparr>
      else
        (case ListDanglingFirewalls env of
           Inl err \<Rightarrow> \<lparr>resp_status = handleJobError err, resp_calls = []\<rparr>
         | Inr firewalls \<Rightarrow> deleteFirewalls env firewalls []))"

section \<open>Example worlds\<close>

text \<open>
  The end-to-end example of the specification: the forwarding rule
  \<open>k8s-fw-default-app\<close> targets an HTTPS proxy created on 2017-12-01 at 00:00 UTC,
  whose url map has one path rule, whose backend service has one health check and one
  instance group, which has no instance. \<open>t0\<close> is that instant. The project also has
  four firewall rules and two zones; one instance, in the second zone, carries the tag
  \<open>gke-a-node\<close>.
\<close>

definition t0 :: time where
  "t0 = 63647683200 * 1000000000"

definition example_parse :: "string \<Rightarrow> time option" where
  "example_parse s =
     (if s = ''2017-12-01T00:00:00Z'' then Some t0
      else if s = ''2017-12-01T02:00:00Z'' then Some (t0 + 2 * Hour)
      else if s = ''2017-12-01T03:15:00Z'' then Some (t0 + 3 * Hour + 15 * Minute)
      else None)"

definition example_format :: "time \<Rightarrow> string" where
  "example_format t =
     (if t = t0 then ''2017-12-01T00:00:00Z''
      else if t = t0 + 2 * Hour then ''2017-12-01T02:00:00Z''
      else if t = t0 + 3 * Hour + 15 * Minute then ''2017-12-01T03:15:00Z''
      else ''other'')"

definition example_proxy :: TargetHttpsProxy where
  "example_proxy =
     \<lparr>tps_Name = ''k8s-tps-default-app'',
      tps_SslCertificates = [''/p/global/sslCertificates/k8s-ssl-app''],
      tps_UrlMap = ''/p/global/urlMaps/k8s-um-app'',
      tps_CreationTimestamp = ''2017-12-01T00:00:00Z''\<rparr>"

definition example_url_map :: UrlMap where
  "example_url_map =
     \<lparr>um_PathMatchers =
        [\<lparr>pm_PathRules = [\<lparr>pr_Service = ''/p/global/backendServices/k8s-be-app''\<rparr>]\<rparr>]\<rparr>"

definition example_service :: BackendService where
  "example_service =
     \<lparr>bs_Name = ''k8s-be-app'',
      bs_SelfLink = ''/p/global/backendServices/k8s-be-app'',
      bs_HealthChecks = [''/p/global/healthChecks/k8s-hc-app''],
      bs_Backends = [\<lparr>be_Group = ''/p/zones/z1/instanceGroups/k8s-ig''\<rparr>]\<rparr>"

definition example_firewalls :: "Firewall list" where
  "example_firewalls =
     [\<lparr>fw_Name = ''fw-ab'', fw_TargetTags = [''gke-a-node'', ''gke-b-node'']\<rparr>,
      \<lparr>fw_Name = ''fw-a'', fw_TargetTags = [''gke-a-node'']\<rparr>,
      \<lparr>fw_Name = ''fw-cd'', fw_TargetTags = [''gke-c-node'', ''gke-d-node'']\<rparr>,
      \<lparr>fw_Name = ''fw-web'', fw_TargetTags = [''web'']\<rparr>]"

definition example_env :: env where
  "example_env =
     \<lparr>AppengineAppOk = True,
      ParseRFC3339 = example_parse,
      FormatRFC3339 = example_format,
      Delete = (\<lambda>c. if c = UrlMapsDelete ''gone'' then Some (GoogleApiError 404)
                    else if c = UrlMapsDelete ''busy'' then Some (GoogleApiError 400)
                    else None),
      GetTargetHttpsProxy =
        (\<lambda>n. if n = ''k8s-tps-default-app'' then Inr example_proxy
              else Inl (GoogleApiError 404)),
      GetTargetHttpProxy = (\<lambda>n. Inl (GoogleApiError 404)),
      GetUrlMap =
        (\<lambda>n. if n = ''k8s-um-app'' then Inr example_url_map else Inl (GoogleApiError 404)),
      BackendServicesGet =
        (\<lambda>n. if n = ''k8s-be-app'' then Inr example_service else Inl (GoogleApiError 404)),
      InstanceGroupsListInstances = (\<lambda>zone n. Inr []),
      FirewallsList = Inr example_firewalls,
      ZonesList = Inr [''z1'', ''z2''],
      InstancesList =
        (\<lambda>zone. if zone = ''z2'' then Inr [\<lparr>inst_Tags = [''gke-a-node'', ''http'']\<rparr>]
                 else Inr []),
      FirewallsDeleteDo = (\<lambda>issued n. None),
      RangeOrder = (\<lambda>m. m)\<rparr>"

section \<open>The vocabulary of the specification\<close>

text \<open>
  The resolved tree of a proxy (specification, 4.1): what the proxy, its url map and the
  backend services of the path rules of the url map are, once every fetch and every
  parse on the way has succeeded.
\<close>

record tree =
  tr_tpName :: string
  tr_certificates :: "string list"
  tr_urlMapURL :: string
  tr_timestamp :: string
  tr_umname :: string
  tr_urlMap :: UrlMap
  tr_services :: "BackendService list"

definition resolves_to :: "env \<Rightarrow> string \<Rightarrow> bool \<Rightarrow> tree \<Rightarrow> bool" where
  "resolves_to env tpname isHTTPs tr =
     (getTargetProxy env tpname isHTTPs =
        Inr (tr_tpName tr, tr_certificates tr, tr_urlMapURL tr, tr_timestamp tr) \<and>
      fst (ParseUrlMap (tr_urlMapURL tr)) = tr_umname tr \<and>
      snd (snd (ParseUrlMap (tr_urlMapURL tr))) = None \<and>
      GetUrlMap env (tr_umname tr) = Inr (tr_urlMap tr) \<and>
      FindBackendServices env (tr_urlMap tr) = Inr (tr_services tr) \<and>
      list_all (\<lambda>service.
        list_all (\<lambda>backend. snd (snd (ParseInstanceGroup (be_Group backend))) = None)
          (bs_Backends service)) (tr_services tr))"

text \<open>
  The instance count of an instance group, as the listing of its instances in every
  state gives it (a listing that fails counts as no instance), and the sum of the
  counts over every instance group of every service.
\<close>

definition group_instance_count :: "env \<Rightarrow> Backend \<Rightarrow> nat" where
  "group_instance_count env backend =
     (case ParseInstanceGroup (be_Group backend) of
        (name, zone, _) \<Rightarrow>
          (case InstanceGroupsListInstances env zone name of
             Inl err \<Rightarrow> 0
           | Inr items \<Rightarrow> length items))"

definition instance_total :: "env \<Rightarrow> BackendService list \<Rightarrow> nat" where
  "instance_total env services =
     (\<Sum>service\<leftarrow>services. \<Sum>backend\<leftarrow>bs_Backends service. group_instance_count env backend)"

text \<open>
  The tasks of a plan in the order of the specification (4.3), each as the pair of its
  path and the name it carries: the proxy; the certificates that parse, for HTTPS; every
  backend service, followed by its health checks; the url map; the forwarding rule, if
  there is one.
\<close>

definition plan_order ::
  "string \<Rightarrow> string \<Rightarrow> bool \<Rightarrow> string list \<Rightarrow> BackendService list \<Rightarrow> string \<Rightarrow>
   (string \<times> string) list" where
  "plan_order fwname tpName isHTTPs certificates services umname =
     [(''/job/target-http-proxies/delete'', tpName)] @
     (if isHTTPs
      then map (\<lambda>cert. (''/job/ssl-certificates/delete'', fst (ParseSslCertificates cert)))
             (filter (\<lambda>cert. snd (snd (ParseSslCertificates cert)) = None) certificates)
      else []) @
     concat (map (\<lambda>service.
        (''/job/backend-services/delete'', bs_Name service) #
        map (\<lambda>hc. (''/job/health-checks/delete'', fst (ParseHealthChecks hc)))
          (bs_HealthChecks service)) services) @
     [(''/job/url-maps/delete'', umname)] @
     (if fwname = '''' then [] else [(''/job/forwarding-rules/delete'', fwname)])"

text \<open>
  For the firewall pass: the tags observed on the instances of the zones (a zone whose
  listing fails shows none), and the tags that key a deletion, which are the
  controller-generated tags (prefix \<open>gke-\<close>) observed on no instance of any zone.
\<close>

definition zone_instances :: "env \<Rightarrow> string \<Rightarrow> Instance list" where
  "zone_instances env zone =
     (case InstancesList env zone of Inl err \<Rightarrow> [] | Inr instances \<Rightarrow> instances)"

definition observed_tags :: "env \<Rightarrow> string list \<Rightarrow> string list" where
  "observed_tags env zones = concat (map inst_Tags (concat (map (zone_instances env) zones)))"

definition dangling_tag :: "env \<Rightarrow> string list \<Rightarrow> string \<Rightarrow> bool" where
  "dangling_tag env zones tag =
     (HasPrefix tag ''gke-'' \<and> tag \<notin> set (observed_tags env zones))"

text \<open>The entries of the map, one pair for every firewall listed under a tag.\<close>

definition entries :: "tags2fws \<Rightarrow> (string \<times> Firewall) list" where
  "entries m = concat (map (\<lambda>(tag, fws). map (Pair tag) fws) m)"

text \<open>
  The resolved tree of the example, the plan expected for it three hours after the
  creation of the proxy, and two variants of the world: one where the instance group
  has an instance, one where the timestamp of the proxy is not in the RFC3339 layout.
\<close>

definition example_tree :: tree where
  "example_tree =
     \<lparr>tr_tpName = ''k8s-tps-default-app'',
      tr_certificates = [''/p/global/sslCertificates/k8s-ssl-app''],
      tr_urlMapURL = ''/p/global/urlMaps/k8s-um-app'',
      tr_timestamp = ''2017-12-01T00:00:00Z'',
      tr_umname = ''k8s-um-app'',
      tr_urlMap = example_url_map,
      tr_services = [example_service]\<rparr>"

definition example_plan :: "task list" where
  "example_plan =
     [\<lparr>task_path = ''/job/target-http-proxies/delete'',
       task_params = [(''name'', ''k8s-tps-default-app''), (''https'', ''true''),
                      (''expires'', ''2017-12-01T03:15:00Z'')]\<rparr>,
      \<lparr>task_path = ''/job/ssl-certificates/delete'',
       task_params = [(''name'', ''k8s-ssl-app''), (''expires'', ''2017-12-01T03:15:00Z'')]\<rparr>,
      \<lparr>task_path = ''/job/backend-services/delete'',
       task_params = [(''name'', ''k8s-be-app''), (''region'', ''global''),
                      (''expires'', ''2017-12-01T03:15:00Z'')]\<rparr>,
      \<lparr>task_path = ''/job/health-checks/delete'',
       task_params = [(''name'', ''k8s-hc-app''), (''expires'', ''2017-12-01T03:15:00Z'')]\<rparr>,
      \<lparr>task_path = ''/job/url-maps/delete'',
       task_params = [(''name'', ''k8s-um-app''), (''expires'', ''2017-12-01T03:15:00Z'')]\<rparr>,
      \<lparr>task_path = ''/job/forwarding-rules/delete'',
       task_params = [(''name'', ''k8s-fw-default-app''), (''region'', ''global''),
                      (''expires'', ''2017-12-01T03:15:00Z'')]\<rparr>]"


definition example_env_undated :: env where
  "example_env_undated =
     example_env\<lparr>GetTargetHttpsProxy :=
       (\<lambda>n. Inr (example_proxy\<lparr>tps_CreationTimestamp := ''2017-12-01 00:00''\<rparr>))\<rparr>"

definition example_tree_undated :: tree where
  "example_tree_undated = example_tree\<lparr>tr_timestamp := ''2017-12-01 00:00''\<rparr>"

section \<open>Properties of the string functions\<close>

lemma HasPrefix_iff: "HasPrefix s p \<longleftrightarrow> (\<exists>rest. s = p @ rest)"
  unfolding HasPrefix_def
  by (metis append_eq_conv_conj append_take_drop_id)

lemma Index_Some:
  "Index s sub = Some i \<Longrightarrow> i \<le> length s \<and> HasPrefix (drop i s) sub"
  by (induction s arbitrary: i) (auto simp: HasPrefix_def split: if_splits)

lemma Index_first:
  "Index s sub = Some i \<Longrightarrow> j < i \<Longrightarrow> \<not> HasPrefix (drop j s) sub"
proof (induction s arbitrary: i j)
  case Nil
  then show ?case by (auto split: if_splits)
next
  case (Cons c cs)
  then show ?case by (cases j) (auto split: if_splits)
qed

lemma LastIndex_slash_None:
  "LastIndex s ''/'' = None \<longleftrightarrow> CHR ''/'' \<notin> set s"
  by (induction s) (auto simp: HasPrefix_def split: option.splits)

lemma LastIndex_slash_Some:
  "LastIndex s ''/'' = Some i \<Longrightarrow>
     i < length s \<and> s ! i = CHR ''/'' \<and> CHR ''/'' \<notin> set (drop (Suc i) s)"
proof (induction s arbitrary: i)
  case Nil
  then show ?case by simp
next
  case (Cons c cs)
  then show ?case
    by (auto simp: HasPrefix_def LastIndex_slash_None split: option.splits if_splits)
qed

section \<open>Properties of self-link parsing\<close>

text \<open>
  The search for the name starts at the separator that introduces the keyword, so it
  always finds a separator: the branch \<open>failed to find name\<close> is never taken.
\<close>

lemma name_is_found:
  assumes "Index s (''/'' @ keyword) = Some pos"
  shows "\<exists>j. LastIndex (drop pos s) ''/'' = Some j"
proof -
  from Index_Some [OF assms] have "HasPrefix (drop pos s) (''/'' @ keyword)" ..
  then have "CHR ''/'' \<in> set (drop pos s)"
    by (auto simp: HasPrefix_iff)
  then show ?thesis
    using LastIndex_slash_None [of "drop pos s"] by auto
qed

lemma parseURL_never_fails_to_find_name:
  "snd (snd (parseURL s keyword)) \<noteq> Some (PlainError ''failed to find name'')"
proof (cases "Index s (''/'' @ keyword)")
  case None
  then show ?thesis by (simp add: parseURL_def)
next
  case (Some pos)
  from name_is_found [OF Some] obtain j where "LastIndex (drop pos s) ''/'' = Some j" ..
  with Some show ?thesis
    by (simp add: parseURL_def Let_def split: option.splits)
qed

text \<open>
  What a successful parse returns: the name is the text after the last separator of the
  link, and the region is the segment right before the separator and the keyword.
\<close>

lemma parseURL_ok:
  assumes "parseURL s keyword = (name, region, None)"
  shows "CHR ''/'' \<notin> set name \<and> (\<exists>pre. s = pre @ ''/'' @ name) \<and>
         CHR ''/'' \<notin> set region \<and>
         (\<exists>pre rest. s = pre @ ''/'' @ region @ ''/'' @ keyword @ rest)"
proof -
  from assms obtain pos i j where
    pos: "Index s (''/'' @ keyword) = Some pos" and
    i: "LastIndex (take pos s) ''/'' = Some i" and
    j: "LastIndex (drop pos s) ''/'' = Some j" and
    region: "region = slice s (i + 1) pos" and
    name: "name = drop (pos + j + 1) s"
    by (auto simp: parseURL_def Let_def split: option.splits)
  from Index_Some [OF pos] obtain rest where
    le: "pos \<le> length s" and rest: "drop pos s = ''/'' @ keyword @ rest"
    by (auto simp: HasPrefix_iff)
  from LastIndex_slash_Some [OF i] have
    i_lt: "i < pos" and i_at: "take pos s ! i = CHR ''/''" and
    i_after: "CHR ''/'' \<notin> set (drop (Suc i) (take pos s))"
    using le by auto
  from LastIndex_slash_Some [OF j] have
    j_lt: "j < length (drop pos s)" and j_at: "drop pos s ! j = CHR ''/''" and
    j_after: "CHR ''/'' \<notin> set (drop (Suc j) (drop pos s))"
    by auto
  have region': "region = drop (Suc i) (take pos s)"
    using i_lt by (simp add: region slice_def drop_take)
  have "take pos s = take i (take pos s) @ CHR ''/'' # region"
    using i_lt i_at le region'
    by (metis Cons_nth_drop_Suc append_take_drop_id length_take min.absorb2)
  then have s1: "s = take i (take pos s) @ ''/'' @ region @ ''/'' @ keyword @ rest"
    using rest by (metis append.assoc append_Cons append_Nil append_take_drop_id)
  have name': "name = drop (Suc j) (drop pos s)"
    by (simp add: name add.commute)
  have "drop pos s = take j (drop pos s) @ CHR ''/'' # name"
    using j_lt j_at name' by (metis Cons_nth_drop_Suc append_take_drop_id)
  then have s2: "s = (take pos s @ take j (drop pos s)) @ ''/'' @ name"
    by (metis append.assoc append_Cons append_Nil append_take_drop_id)
  show ?thesis
    using i_after j_after region' name' s1 s2 by blast
qed

lemma parseURL_keyword_absent:
  assumes "\<not> (\<exists>pre rest. s = pre @ ''/'' @ keyword @ rest)"
  shows "parseURL s keyword =
           ('''', '''', Some (PlainError (''failed to find keyword '' @ keyword)))"
proof (cases "Index s (''/'' @ keyword)")
  case None
  then show ?thesis by (simp add: parseURL_def)
next
  case (Some pos)
  from Index_Some [OF Some] obtain rest where "drop pos s = ''/'' @ keyword @ rest"
    by (auto simp: HasPrefix_iff)
  then have "s = take pos s @ ''/'' @ keyword @ rest"
    by (metis append_take_drop_id)
  with assms show ?thesis by blast
qed

lemma parseURL_no_separator_before:
  assumes "Index s (''/'' @ keyword) = Some pos" and "CHR ''/'' \<notin> set (take pos s)"
  shows "parseURL s keyword = ('''', '''', Some (PlainError ''failed to find region''))"
  using assms LastIndex_slash_None [of "take pos s"]
  by (simp add: parseURL_def)

text \<open>
  Claim C7. The claim asks for a parse error whenever a path separator is lacking on
  either side of the keyword. On a link that ends with the keyword (no separator and no
  name after it) the three parsers return no error: the name they return is the keyword
  itself.
\<close>

theorem link_ending_with_keyword_parses:
  "ParseUrlMap ''/p/global/urlMaps'' = (''urlMaps'', ''global'', None) \<and>
   ParseTargetProxy ''/p/global/targetHttpsProxies'' =
     (''targetHttpsProxies'', ''global'', True, None) \<and>
   parseURL ''/p/global/backendServices'' ''backendServices'' =
     (''backendServices'', ''global'', None)"
  by (simp add: ParseUrlMap_def ParseTargetProxy_def parseURL_def HasPrefix_def slice_def)

section \<open>Properties of the deletion workers\<close>

lemma route_paths:
  "p \<in> set (map fst routes) \<longleftrightarrow>
     p = ''/job/forwarding-rules/delete'' \<or> p = ''/job/url-maps/delete'' \<or>
     p = ''/job/ssl-certificates/delete'' \<or> p = ''/job/backend-services/delete'' \<or>
     p = ''/job/target-pools/delete'' \<or> p = ''/job/target-http-proxies/delete'' \<or>
     p = ''/job/health-checks/delete''"
  by (simp add: routes_def)

lemma serve_simps:
  "serve env now ''/job/forwarding-rules/delete'' r = httpForwardingRulesDelete env now r"
  "serve env now ''/job/url-maps/delete'' r = httpUrlMapsDelete env now r"
  "serve env now ''/job/ssl-certificates/delete'' r = httpBackendServicesDelete env now r"
  "serve env now ''/job/backend-services/delete'' r = httpBackendServicesDelete env now r"
  "serve env now ''/job/target-pools/delete'' r = httpTargetPoolsDelete env now r"
  "serve env now ''/job/target-http-proxies/delete'' r = httpTargetProxiesDelete env now r"
  "serve env now ''/job/health-checks/delete'' r = httpHealthChecksDelete env now r"
  by (simp_all add: serve_def routes_def)

lemmas handler_defs =
  httpForwardingRulesDelete_def httpUrlMapsDelete_def httpBackendServicesDelete_def
  httpSslCertificatesDelete_def httpTargetPoolsDelete_def httpTargetProxiesDelete_def
  httpHealthChecksDelete_def

lemma handleJobError_status:
  "handleJobError e = (if e = GoogleApiError 404 then 204 else 500)"
  by (cases e) (simp_all add: handleJobError_def)

lemma expired_handlers:
  assumes "isExpired env now r"
  shows "httpForwardingRulesDelete env now r = \<lparr>resp_status = 204, resp_calls = []\<rparr>"
    and "httpUrlMapsDelete env now r = \<lparr>resp_status = 204, resp_calls = []\<rparr>"
    and "httpBackendServicesDelete env now r = \<lparr>resp_status = 204, resp_calls = []\<rparr>"
    and "httpSslCertificatesDelete env now r = \<lparr>resp_status = 204, resp_calls = []\<rparr>"
    and "httpTargetPoolsDelete env now r = \<lparr>resp_status = 204, resp_calls = []\<rparr>"
    and "httpTargetProxiesDelete env now r = \<lparr>resp_status = 204, resp_calls = []\<rparr>"
    and "httpHealthChecksDelete env now r = \<lparr>resp_status = 204, resp_calls = []\<rparr>"
  using assms by (simp_all add: handler_defs)

lemma expired_serve:
  assumes "p \<in> set (map fst routes)" and "isExpired env now r"
  shows "serve env now p r = \<lparr>resp_status = 204, resp_calls = []\<rparr>"
  using assms(1) expired_handlers [OF assms(2)]
  unfolding route_paths by (elim disjE) (simp_all only: serve_simps)

text \<open>
  A handler that goes on issues one delete call, and answers with 204 when the call
  succeeds and with the status of \<open>handleJobError\<close> when it fails.
\<close>

lemma live_handlers:
  assumes "\<not> isExpired env now r" and "AppengineAppOk env"
  shows "\<exists>c. httpForwardingRulesDelete env now r =
           \<lparr>resp_status = (case Delete env c of None \<Rightarrow> 204 | Some e \<Rightarrow> handleJobError e),
            resp_calls = [c]\<rparr>"
    and "\<exists>c. httpUrlMapsDelete env now r =
           \<lparr>resp_status = (case Delete env c of None \<Rightarrow> 204 | Some e \<Rightarrow> handleJobError e),
            resp_calls = [c]\<rparr>"
    and "\<exists>c. httpBackendServicesDelete env now r =
           \<lparr>resp_status = (case Delete env c of None \<Rightarrow> 204 | Some e \<Rightarrow> handleJobError e),
            resp_calls = [c]\<rparr>"
    and "\<exists>c. httpSslCertificatesDelete env now r =
           \<lparr>resp_status = (case Delete env c of None \<Rightarrow> 204 | Some e \<Rightarrow> handleJobError e),
            resp_calls = [c]\<rparr>"
    and "\<exists>c. httpTargetPoolsDelete env now r =
           \<lparr>resp_status = (case Delete env c of None \<Rightarrow> 204 | Some e \<Rightarrow> handleJobError e),
            resp_calls = [c]\<rparr>"
    and "\<exists>c. httpTargetProxiesDelete env now r =
           \<lparr>resp_status = (case Delete env c of None \<Rightarrow> 204 | Some e \<Rightarrow> handleJobError e),
            resp_calls = [c]\<rparr>"
    and "\<exists>c. httpHealthChecksDelete env now r =
           \<lparr>resp_status = (case Delete env c of None \<Rightarrow> 204 | Some e \<Rightarrow> handleJobError e),
            resp_calls = [c]\<rparr>"
  using assms
  by (auto simp: handler_defs Let_def split: option.splits)

lemma live_serve:
  assumes "p \<in> set (map fst routes)" and "\<not> isExpired env now r" and "AppengineAppOk env"
  shows "\<exists>c. serve env now p r =
           \<lparr>resp_status = (case Delete env c of None \<Rightarrow> 204 | Some e \<Rightarrow> handleJobError e),
            resp_calls = [c]\<rparr>"
  using assms(1) live_handlers [OF assms(2,3)]
  unfolding route_paths by (elim disjE) (simp_all only: serve_simps)

text \<open>
  The kinds whose task reaches its own handler: the delete issued is the one of the
  kind, name and scope that the task carries.
\<close>

lemma other_tasks_delete_their_resource:
  assumes "\<not> isExpired env now r" and "AppengineAppOk env"
  shows "resp_calls (serve env now ''/job/forwarding-rules/delete'' r) =
           [if FormValue r ''region'' = ''global''
            then GlobalForwardingRulesDelete (FormValue r ''name'')
            else ForwardingRulesDelete (FormValue r ''region'') (FormValue r ''name'')]"
    and "resp_calls (serve env now ''/job/url-maps/delete'' r) =
           [UrlMapsDelete (FormValue r ''name'')]"
    and "resp_calls (serve env now ''/job/backend-services/delete'' r) =
           [if FormValue r ''region'' = ''global''
            then BackendServicesDelete (FormValue r ''name'')
            else RegionBackendServicesDelete (FormValue r ''region'') (FormValue r ''name'')]"
    and "resp_calls (serve env now ''/job/target-pools/delete'' r) =
           [TargetPoolsDelete (FormValue r ''region'') (FormValue r ''name'')]"
    and "resp_calls (serve env now ''/job/target-http-proxies/delete'' r) =
           [if ParseBool (FormValue r ''https'')
            then TargetHttpsProxiesDelete (FormValue r ''name'')
            else TargetHttpProxiesDelete (FormValue r ''name'')]"
    and "resp_calls (serve env now ''/job/health-checks/delete'' r) =
           [HealthChecksDelete (FormValue r ''name'')]"
  using assms
  by (auto simp: serve_simps handler_defs Let_def split: option.splits)

lemma example_not_expired:
  "\<not> isExpired example_env (t0 + 3 * Hour) [(''name'', n), (''expires'', ''2017-12-01T03:15:00Z'')]"
  by (simp add: isExpired_def example_env_def example_parse_def FormValue_def After_def
      Hour_def Minute_def)

text \<open>
  Claim C1. The claim asks that a certificate task deletes the named SSL certificate.
  \<open>init\<close> registers \<open>httpBackendServicesDelete\<close> for the path of the certificate
  tasks, so a delivered, unexpired certificate task issues a delete of a backend service
  of that name (a regional one, with the empty region, for the tasks of the planner,
  which carry no region), and no delete of a certificate.
\<close>

theorem ssl_certificate_task_deletes_backend_service:
  assumes "\<not> isExpired env now r" and "AppengineAppOk env"
  shows "resp_calls (serve env now ''/job/ssl-certificates/delete'' r) =
           [if FormValue r ''region'' = ''global''
            then BackendServicesDelete (FormValue r ''name'')
            else RegionBackendServicesDelete (FormValue r ''region'') (FormValue r ''name'')] \<and>
         resp_calls (serve env now ''/job/ssl-certificates/delete'' r) \<noteq>
           resp_calls (httpSslCertificatesDelete env now r)"
  using assms
  by (auto simp: serve_simps handler_defs Let_def split: option.splits)

theorem ssl_certificate_task_deletes_backend_service_witness:
  "\<not> isExpired example_env (t0 + 3 * Hour)
       [(''name'', ''k8s-ssl-app''), (''expires'', ''2017-12-01T03:15:00Z'')] \<and>
   AppengineAppOk example_env \<and>
   resp_calls (serve example_env (t0 + 3 * Hour) ''/job/ssl-certificates/delete''
       [(''name'', ''k8s-ssl-app''), (''expires'', ''2017-12-01T03:15:00Z'')]) =
     [RegionBackendServicesDelete '''' ''k8s-ssl-app''] \<and>
   resp_calls (httpSslCertificatesDelete example_env (t0 + 3 * Hour)
       [(''name'', ''k8s-ssl-app''), (''expires'', ''2017-12-01T03:15:00Z'')]) =
     [SslCertificatesDelete ''k8s-ssl-app'']"
proof -
  have h1: "\<not> isExpired example_env (t0 + 3 * Hour)
              [(''name'', ''k8s-ssl-app''), (''expires'', ''2017-12-01T03:15:00Z'')]"
    by (rule example_not_expired)
  have h2: "AppengineAppOk example_env"
    by (simp add: example_env_def)
  have h3: "resp_calls (httpSslCertificatesDelete example_env (t0 + 3 * Hour)
       [(''name'', ''k8s-ssl-app''), (''expires'', ''2017-12-01T03:15:00Z'')]) =
     [SslCertificatesDelete ''k8s-ssl-app'']"
    using h1 h2 by (simp add: httpSslCertificatesDelete_def FormValue_def example_env_def)
  from ssl_certificate_task_deletes_backend_service [OF h1 h2] h1 h2 h3 show ?thesis
    by (simp add: FormValue_def)
qed

text \<open>
  Claim C5. For the task of every kind that is delivered before its expiry, the worker
  issues one delete call; when the call fails with NotFound (a \<open>googleapi.Error\<close> of
  code 404) the answer is 204 and the task is acknowledged, and when it fails with
  anything else the answer is 500 and the task is not acknowledged.
\<close>

theorem not_found_is_acknowledged_other_failures_are_not:
  assumes "p \<in> set (map fst routes)" and "\<not> isExpired env now r" and "AppengineAppOk env"
  shows "\<exists>c. resp_calls (serve env now p r) = [c] \<and>
           (Delete env c = Some (GoogleApiError 404) \<longrightarrow>
              resp_status (serve env now p r) = 204 \<and> acknowledged (serve env now p r)) \<and>
           (\<forall>e. Delete env c = Some e \<and> e \<noteq> GoogleApiError 404 \<longrightarrow>
              resp_status (serve env now p r) = 500 \<and> \<not> acknowledged (serve env now p r))"
proof -
  from live_serve [OF assms] obtain c where
    c: "serve env now p r =
          \<lparr>resp_status = (case Delete env c of None \<Rightarrow> 204 | Some e \<Rightarrow> handleJobError e),
           resp_calls = [c]\<rparr>" ..
  show ?thesis
    by (rule exI [of _ c]) (simp add: c handleJobError_status acknowledged_def)
qed

theorem not_found_is_acknowledged_other_failures_are_not_witness:
  "''/job/url-maps/delete'' \<in> set (map fst routes) \<and>
   \<not> isExpired example_env (t0 + 3 * Hour)
       [(''name'', ''gone''), (''expires'', ''2017-12-01T03:15:00Z'')] \<and>
   AppengineAppOk example_env \<and>
   Delete example_env (UrlMapsDelete ''gone'') = Some (GoogleApiError 404) \<and>
   resp_calls (serve example_env (t0 + 3 * Hour) ''/job/url-maps/delete''
       [(''name'', ''gone''), (''expires'', ''2017-12-01T03:15:00Z'')]) = [UrlMapsDelete ''gone''] \<and>
   resp_status (serve example_env (t0 + 3 * Hour) ''/job/url-maps/delete''
       [(''name'', ''gone''), (''expires'', ''2017-12-01T03:15:00Z'')]) = 204 \<and>
   acknowledged (serve example_env (t0 + 3 * Hour) ''/job/url-maps/delete''
       [(''name'', ''gone''), (''expires'', ''2017-12-01T03:15:00Z'')])"
proof -
  let ?r = "[(''name'', ''gone''), (''expires'', ''2017-12-01T03:15:00Z'')]"
  have h1: "''/job/url-maps/delete'' \<in> set (map fst routes)"
    by (simp add: routes_def)
  have h2: "\<not> isExpired example_env (t0 + 3 * Hour) ?r"
    by (rule example_not_expired)
  have h3: "AppengineAppOk example_env"
    by (simp add: example_env_def)
  have h4: "Delete example_env (UrlMapsDelete ''gone'') = Some (GoogleApiError 404)"
    by (simp add: example_env_def)
  have h5: "resp_calls (serve example_env (t0 + 3 * Hour) ''/job/url-maps/delete'' ?r) =
              [UrlMapsDelete ''gone'']"
    using other_tasks_delete_their_resource(2) [OF h2 h3] by (simp add: FormValue_def)
  from not_found_is_acknowledged_other_failures_are_not [OF h1 h2 h3] h5 h4
  have "resp_status (serve example_env (t0 + 3 * Hour) ''/job/url-maps/delete'' ?r) = 204 \<and>
        acknowledged (serve example_env (t0 + 3 * Hour) ''/job/url-maps/delete'' ?r)"
    by auto
  with h1 h2 h3 h4 h5 show ?thesis
    by blast
qed

text \<open>
  Claim C6. A delivered task of any kind whose expiry lies before now is answered with
  204 (acknowledged) and no call to the API is issued.
\<close>

theorem expired_task_is_acknowledged_without_a_call:
  assumes "p \<in> set (map fst routes)"
    and "ParseRFC3339 env (FormValue r ''expires'') = Some expires"
    and "After now expires"
  shows "serve env now p r = \<lparr>resp_status = 204, resp_calls = []\<rparr> \<and>
         acknowledged (serve env now p r)"
proof -
  have "isExpired env now r"
    using assms(2,3) by (simp add: isExpired_def)
  with assms(1) have "serve env now p r = \<lparr>resp_status = 204, resp_calls = []\<rparr>"
    by (rule expired_serve)
  then show ?thesis
    by (simp add: acknowledged_def)
qed

theorem expired_task_is_acknowledged_without_a_call_witness:
  "''/job/target-http-proxies/delete'' \<in> set (map fst routes) \<and>
   ParseRFC3339 example_env
     (FormValue [(''name'', ''k8s-tps-default-app''), (''https'', ''true''),
                 (''expires'', ''2017-12-01T02:00:00Z'')] ''expires'') = Some (t0 + 2 * Hour) \<and>
   After (t0 + 3 * Hour) (t0 + 2 * Hour) \<and>
   serve example_env (t0 + 3 * Hour) ''/job/target-http-proxies/delete''
     [(''name'', ''k8s-tps-default-app''), (''https'', ''true''),
      (''expires'', ''2017-12-01T02:00:00Z'')] = \<lparr>resp_status = 204, resp_calls = []\<rparr>"
proof -
  let ?r = "[(''name'', ''k8s-tps-default-app''), (''https'', ''true''),
             (''expires'', ''2017-12-01T02:00:00Z'')]"
  have h1: "''/job/target-http-proxies/delete'' \<in> set (map fst routes)"
    by (simp add: routes_def)
  have h2: "ParseRFC3339 example_env (FormValue ?r ''expires'') = Some (t0 + 2 * Hour)"
    by (simp add: example_env_def example_parse_def FormValue_def)
  have h3: "After (t0 + 3 * Hour) (t0 + 2 * Hour)"
    by (simp add: After_def Hour_def Minute_def)
  from expired_task_is_acknowledged_without_a_call [OF h1 h2 h3] h1 h2 h3 show ?thesis
    by blast
qed

section \<open>Properties of classification and planning\<close>

text \<open>
  What \<open>FindBackendServices\<close> returns when it succeeds: the backend service of every
  path rule of every path matcher of the url map, in order, each as
  \<open>BackendServices.Get\<close> answers for the name parsed from the link of the rule.
\<close>

lemma findInPathRules_all:
  assumes "findInPathRules env prs list = Inr list'"
  shows "map Inr list' =
           map Inr list @
           map (\<lambda>pr. BackendServicesGet env (fst (ParseService (pr_Service pr)))) prs"
  using assms
proof (induction prs arbitrary: list)
  case Nil
  then show ?case by simp
next
  case (Cons pr prs)
  from Cons.prems obtain sname region s where
    p: "ParseService (pr_Service pr) = (sname, region, None)" and
    g: "BackendServicesGet env sname = Inr s" and
    r: "findInPathRules env prs (list @ [s]) = Inr list'"
    by (cases "ParseService (pr_Service pr)") (auto split: option.splits sum.splits)
  from Cons.IH [OF r] p g show ?case
    by simp
qed

lemma findInPathMatchers_all:
  assumes "findInPathMatchers env pms list = Inr list'"
  shows "map Inr list' =
           map Inr list @
           map (\<lambda>pr. BackendServicesGet env (fst (ParseService (pr_Service pr))))
             (concat (map pm_PathRules pms))"
  using assms
proof (induction pms arbitrary: list)
  case Nil
  then show ?case by simp
next
  case (Cons pm pms)
  from Cons.prems obtain l where
    a: "findInPathRules env (pm_PathRules pm) list = Inr l" and
    b: "findInPathMatchers env pms l = Inr list'"
    by (auto split: sum.splits)
  from Cons.IH [OF b] findInPathRules_all [OF a] show ?case
    by simp
qed

lemma FindBackendServices_all_path_rules:
  assumes "FindBackendServices env um = Inr services"
  shows "map Inr services =
           map (\<lambda>pr. BackendServicesGet env (fst (ParseService (pr_Service pr))))
             (concat (map pm_PathRules (um_PathMatchers um)))"
  using findInPathMatchers_all [of env "um_PathMatchers um" "[]" services] assms
  by (simp add: FindBackendServices_def)


lemma listInstancesForBackends_length:
  assumes "list_all (\<lambda>backend. snd (snd (ParseInstanceGroup (be_Group backend))) = None) backends"
  shows "\<exists>l. listInstancesForBackends env backends list = Inr l \<and>
             length l = length list + (\<Sum>backend\<leftarrow>backends. group_instance_count env backend)"
  using assms
proof (induction backends arbitrary: list)
  case Nil
  then show ?case by simp
next
  case (Cons backend backends)
  obtain name zone where p: "ParseInstanceGroup (be_Group backend) = (name, zone, None)"
    using Cons.prems by (cases "ParseInstanceGroup (be_Group backend)") auto
  from Cons.prems have rest: "list_all (\<lambda>backend. snd (snd (ParseInstanceGroup (be_Group backend))) = None) backends"
    by simp
  show ?case
  proof (cases "InstanceGroupsListInstances env zone name")
    case (Inl err)
    with p Cons.IH [OF rest, of list] show ?thesis
      by (simp add: group_instance_count_def)
  next
    case (Inr items)
    with p Cons.IH [OF rest, of "list @ items"] show ?thesis
      by (auto simp add: group_instance_count_def)
  qed
qed

lemma sumInstances_total:
  assumes "list_all (\<lambda>service.
        list_all (\<lambda>backend. snd (snd (ParseInstanceGroup (be_Group backend))) = None)
          (bs_Backends service)) services"
  shows "sumInstances env services tot = Inr (tot + int (instance_total env services))"
  using assms
proof (induction services arbitrary: tot)
  case Nil
  then show ?case by (simp add: instance_total_def)
next
  case (Cons service services)
  from Cons.prems obtain l where
    l: "ListInstancesForService env service = Inr l" and
    len: "length l = (\<Sum>backend\<leftarrow>bs_Backends service. group_instance_count env backend)"
    using listInstancesForBackends_length [of "bs_Backends service" env "[]"]
    by (auto simp: ListInstancesForService_def)
  from Cons.prems have "sumInstances env services (tot + int (length l)) =
      Inr (tot + int (length l) + int (instance_total env services))"
    by (intro Cons.IH) simp
  with l len show ?case
    by (simp add: instance_total_def)
qed

lemma check_resolved:
  assumes "resolves_to env tpname isHTTPs tr"
  shows "checkAndDeleteTargetProxiesIfApplicable env now1 now2 fwname region tpname isHTTPs =
           (if After (case ParseRFC3339 env (tr_timestamp tr) of None \<Rightarrow> zeroTime | Some t \<Rightarrow> t)
                 (now1 - Hour) then Inr []
            else if 0 < instance_total env (tr_services tr) then Inr []
            else Inr (planTasks env now2 fwname region (tr_tpName tr) isHTTPs
                        (tr_certificates tr) (tr_services tr) (tr_umname tr)))"
proof -
  from assms have
    tp: "getTargetProxy env tpname isHTTPs =
           Inr (tr_tpName tr, tr_certificates tr, tr_urlMapURL tr, tr_timestamp tr)" and
    um1: "fst (ParseUrlMap (tr_urlMapURL tr)) = tr_umname tr" and
    um2: "snd (snd (ParseUrlMap (tr_urlMapURL tr))) = None" and
    um: "GetUrlMap env (tr_umname tr) = Inr (tr_urlMap tr)" and
    services: "FindBackendServices env (tr_urlMap tr) = Inr (tr_services tr)" and
    groups: "list_all (\<lambda>service.
        list_all (\<lambda>backend. snd (snd (ParseInstanceGroup (be_Group backend))) = None)
          (bs_Backends service)) (tr_services tr)"
    by (simp_all add: resolves_to_def)
  obtain umregion where parse: "ParseUrlMap (tr_urlMapURL tr) = (tr_umname tr, umregion, None)"
    using um1 um2 by (cases "ParseUrlMap (tr_urlMapURL tr)") auto
  have tot: "sumInstances env (tr_services tr) 0 = Inr (int (instance_total env (tr_services tr)))"
    using sumInstances_total [OF groups, of env 0] by simp
  show ?thesis
    by (simp add: checkAndDeleteTargetProxiesIfApplicable_def tp parse um services tot)
qed


lemma certificateTasks_eq:
  "certificateTasks expires certs tasks =
     tasks @ map (\<lambda>cert. \<lparr>task_path = ''/job/ssl-certificates/delete'',
                       task_params = [(''name'', fst (ParseSslCertificates cert)), (''expires'', expires)]\<rparr>)
               (filter (\<lambda>cert. snd (snd (ParseSslCertificates cert)) = None) certs)"
proof (induction certs arbitrary: tasks)
  case Nil
  then show ?case by simp
next
  case (Cons cert certs)
  then show ?case
    by (cases "ParseSslCertificates cert") (auto split: option.splits)
qed

lemma healthCheckTasks_eq:
  "healthCheckTasks expires hcs tasks =
     tasks @ map (\<lambda>hc. \<lparr>task_path = ''/job/health-checks/delete'',
                       task_params = [(''name'', fst (ParseHealthChecks hc)), (''expires'', expires)]\<rparr>) hcs"
proof (induction hcs arbitrary: tasks)
  case Nil
  then show ?case by simp
next
  case (Cons hc hcs)
  then show ?case
    by (cases "ParseHealthChecks hc") auto
qed

lemma serviceTasks_eq:
  "serviceTasks expires services tasks =
     tasks @ concat (map (\<lambda>service.
        \<lparr>task_path = ''/job/backend-services/delete'',
         task_params = [(''name'', bs_Name service),
                        (''region'', fst (snd (ParseBackendServices (bs_SelfLink service)))),
                        (''expires'', expires)]\<rparr> #
        map (\<lambda>hc. \<lparr>task_path = ''/job/health-checks/delete'',
                       task_params = [(''name'', fst (ParseHealthChecks hc)), (''expires'', expires)]\<rparr>)
          (bs_HealthChecks service)) services)"
proof (induction services arbitrary: tasks)
  case Nil
  then show ?case by simp
next
  case (Cons service services)
  then show ?case
    by (cases "ParseBackendServices (bs_SelfLink service)") (simp add: healthCheckTasks_eq)
qed

lemma planTasks_order:
  "map (\<lambda>t. (task_path t, FormValue (task_params t) ''name''))
     (planTasks env now fwname region tpName isHTTPs certificates services umname) =
   plan_order fwname tpName isHTTPs certificates services umname"
  by (simp add: planTasks_def plan_order_def Let_def certificateTasks_eq serviceTasks_eq
      FormValue_def comp_def map_concat)

lemma planTasks_expires:
  "t \<in> set (planTasks env now fwname region tpName isHTTPs certificates services umname) \<Longrightarrow>
   FormValue (task_params t) ''expires'' = FormatRFC3339 env (now + 15 * Minute)"
  by (auto simp: planTasks_def Let_def certificateTasks_eq serviceTasks_eq FormValue_def
      split: if_splits)

lemma planTasks_not_empty:
  "planTasks env now fwname region tpName isHTTPs certificates services umname \<noteq> []"
  by (simp add: planTasks_def Let_def certificateTasks_eq serviceTasks_eq)

text \<open>
  The scan for proxies that no forwarding rule targets (lines 130 and 140) calls with
  the empty forwarding rule name: its plan has no task for a forwarding rule.
\<close>

lemma orphan_plan_has_no_forwarding_rule_task:
  "''/job/forwarding-rules/delete'' \<notin>
     fst ` set (plan_order '''' tpName isHTTPs certificates services umname)"
  by (auto simp: plan_order_def)

lemma check_young:
  assumes "getTargetProxy env tpname isHTTPs = Inr (tpName, certificates, urlMapURL, timestamp)"
    and "ParseRFC3339 env timestamp = Some created"
    and "now1 - created < Hour"
  shows "checkAndDeleteTargetProxiesIfApplicable env now1 now2 fwname region tpname isHTTPs =
           Inr []"
  using assms by (simp add: checkAndDeleteTargetProxiesIfApplicable_def After_def)

lemma example_resolves:
  "resolves_to example_env ''k8s-tps-default-app'' True example_tree"
  by (simp add: resolves_to_def example_env_def example_tree_def getTargetProxy_def
      example_proxy_def example_url_map_def example_service_def FindBackendServices_def
      ParseUrlMap_def ParseService_def ParseInstanceGroup_def parseURL_def HasPrefix_def
      slice_def)

lemma example_total: "instance_total example_env (tr_services example_tree) = 0"
  by (simp add: instance_total_def group_instance_count_def example_tree_def example_env_def
      example_service_def ParseInstanceGroup_def HasPrefix_def slice_def)





text \<open>
  Claim C3. A proxy whose creation time is less than one hour before now is alive
  whatever its instances are: the call returns with no task queued. A proxy created two
  hours before now whose resolved tree has no instance is dead.
\<close>

theorem young_proxy_is_alive_two_hours_old_is_dead:
  assumes "getTargetProxy env tpname isHTTPs = Inr (tpName, certificates, urlMapURL, timestamp)"
    and "ParseRFC3339 env timestamp = Some created"
  shows "(now1 - created < Hour \<longrightarrow>
            checkAndDeleteTargetProxiesIfApplicable env now1 now2 fwname region tpname isHTTPs =
              Inr []) \<and>
         (now1 - created = 2 * Hour \<and> resolves_to env tpname isHTTPs tr \<and>
          instance_total env (tr_services tr) = 0 \<longrightarrow>
            (\<exists>tasks.
               checkAndDeleteTargetProxiesIfApplicable env now1 now2 fwname region tpname isHTTPs =
                 Inr tasks \<and> tasks \<noteq> []))"
proof (intro conjI impI)
  assume "now1 - created < Hour"
  with assms show
    "checkAndDeleteTargetProxiesIfApplicable env now1 now2 fwname region tpname isHTTPs = Inr []"
    by (rule check_young)
next
  assume a: "now1 - created = 2 * Hour \<and> resolves_to env tpname isHTTPs tr \<and>
             instance_total env (tr_services tr) = 0"
  then have "timestamp = tr_timestamp tr"
    using assms(1) by (simp add: resolves_to_def)
  with assms(2) a have "\<not> After (case ParseRFC3339 env (tr_timestamp tr) of
                                   None \<Rightarrow> zeroTime | Some t \<Rightarrow> t) (now1 - Hour)"
    by (simp add: After_def Hour_def Minute_def)
  with a show "\<exists>tasks.
      checkAndDeleteTargetProxiesIfApplicable env now1 now2 fwname region tpname isHTTPs =
        Inr tasks \<and> tasks \<noteq> []"
    using check_resolved [of env tpname isHTTPs tr now1 now2 fwname region]
    by (simp add: planTasks_not_empty)
qed

theorem young_proxy_is_alive_two_hours_old_is_dead_witness:
  "getTargetProxy example_env ''k8s-tps-default-app'' True =
     Inr (tr_tpName example_tree, tr_certificates example_tree, tr_urlMapURL example_tree,
          tr_timestamp example_tree) \<and>
   ParseRFC3339 example_env (tr_timestamp example_tree) = Some t0 \<and>
   (t0 + 30 * Minute) - t0 < Hour \<and>
   checkAndDeleteTargetProxiesIfApplicable example_env (t0 + 30 * Minute) (t0 + 30 * Minute)
     ''k8s-fw-default-app'' ''global'' ''k8s-tps-default-app'' True = Inr [] \<and>
   (t0 + 2 * Hour) - t0 = 2 * Hour \<and>
   resolves_to example_env ''k8s-tps-default-app'' True example_tree \<and>
   instance_total example_env (tr_services example_tree) = 0 \<and>
   (\<exists>tasks.
      checkAndDeleteTargetProxiesIfApplicable example_env (t0 + 2 * Hour) (t0 + 2 * Hour)
        ''k8s-fw-default-app'' ''global'' ''k8s-tps-default-app'' True = Inr tasks \<and>
      tasks \<noteq> [])"
proof -
  have h1: "getTargetProxy example_env ''k8s-tps-default-app'' True =
     Inr (tr_tpName example_tree, tr_certificates example_tree, tr_urlMapURL example_tree,
          tr_timestamp example_tree)"
    using example_resolves by (simp add: resolves_to_def)
  have h2: "ParseRFC3339 example_env (tr_timestamp example_tree) = Some t0"
    by (simp add: example_env_def example_tree_def example_parse_def)
  have h3: "(t0 + 30 * Minute) - t0 < Hour"
    by (simp add: Hour_def Minute_def)
  have h4: "(t0 + 2 * Hour) - t0 = 2 * Hour"
    by simp
  note young = young_proxy_is_alive_two_hours_old_is_dead [OF h1 h2,
      of "t0 + 30 * Minute" "t0 + 30 * Minute" "''k8s-fw-default-app''" "''global''"]
  note old = young_proxy_is_alive_two_hours_old_is_dead [OF h1 h2,
      of "t0 + 2 * Hour" "t0 + 2 * Hour" "''k8s-fw-default-app''" "''global''" example_tree]
  from young h3 have a: "checkAndDeleteTargetProxiesIfApplicable example_env (t0 + 30 * Minute)
      (t0 + 30 * Minute) ''k8s-fw-default-app'' ''global'' ''k8s-tps-default-app'' True = Inr []"
    by blast
  from old h4 example_resolves example_total have b: "\<exists>tasks.
      checkAndDeleteTargetProxiesIfApplicable example_env (t0 + 2 * Hour) (t0 + 2 * Hour)
        ''k8s-fw-default-app'' ''global'' ''k8s-tps-default-app'' True = Inr tasks \<and>
      tasks \<noteq> []"
    by blast
  from h1 h2 h3 h4 a b example_resolves example_total show ?thesis
    by blast
qed

text \<open>
  Claim C4. The tasks queued for a dead tree are, in this order: the proxy; for HTTPS,
  its certificates; every backend service, each followed by its health checks; the url
  map; and the forwarding rule when the call was given one. Every task carries the same
  expiry, the time of the plan plus 15 minutes in the RFC3339 layout.
\<close>

theorem plan_is_ordered_and_shares_one_expiry:
  assumes "resolves_to env tpname isHTTPs tr"
    and "checkAndDeleteTargetProxiesIfApplicable env now1 now2 fwname region tpname isHTTPs =
           Inr tasks"
    and "tasks \<noteq> []"
  shows "map (\<lambda>t. (task_path t, FormValue (task_params t) ''name'')) tasks =
           plan_order fwname (tr_tpName tr) isHTTPs (tr_certificates tr) (tr_services tr)
             (tr_umname tr) \<and>
         (\<forall>t \<in> set tasks.
            FormValue (task_params t) ''expires'' = FormatRFC3339 env (now2 + 15 * Minute))"
proof -
  from assms(2,3) have "tasks = planTasks env now2 fwname region (tr_tpName tr) isHTTPs
      (tr_certificates tr) (tr_services tr) (tr_umname tr)"
    unfolding check_resolved [OF assms(1)] by (auto split: if_splits)
  then show ?thesis
    by (simp add: planTasks_order planTasks_expires)
qed

theorem plan_is_ordered_and_shares_one_expiry_witness:
  "resolves_to example_env ''k8s-tps-default-app'' True example_tree \<and>
   checkAndDeleteTargetProxiesIfApplicable example_env (t0 + 3 * Hour) (t0 + 3 * Hour)
     ''k8s-fw-default-app'' ''global'' ''k8s-tps-default-app'' True = Inr example_plan \<and>
   example_plan \<noteq> [] \<and>
   map (\<lambda>t. (task_path t, FormValue (task_params t) ''name'')) example_plan =
     [(''/job/target-http-proxies/delete'', ''k8s-tps-default-app''),
      (''/job/ssl-certificates/delete'', ''k8s-ssl-app''),
      (''/job/backend-services/delete'', ''k8s-be-app''),
      (''/job/health-checks/delete'', ''k8s-hc-app''),
      (''/job/url-maps/delete'', ''k8s-um-app''),
      (''/job/forwarding-rules/delete'', ''k8s-fw-default-app'')] \<and>
   map (\<lambda>t. FormValue (task_params t) ''expires'') example_plan =
     replicate 6 ''2017-12-01T03:15:00Z''"
proof -
  have h2: "checkAndDeleteTargetProxiesIfApplicable example_env (t0 + 3 * Hour) (t0 + 3 * Hour)
     ''k8s-fw-default-app'' ''global'' ''k8s-tps-default-app'' True = Inr example_plan"
    unfolding check_resolved [OF example_resolves] example_total
    by (simp add: After_def example_env_def example_tree_def example_parse_def Hour_def
        Minute_def zeroTime_def t0_def planTasks_def example_plan_def example_format_def
        example_service_def Let_def
        FormatBool_def ParseSslCertificates_def ParseBackendServices_def ParseHealthChecks_def
        parseURL_def HasPrefix_def slice_def)
  have h3: "example_plan \<noteq> []"
    by (simp add: example_plan_def)
  have fmt: "FormatRFC3339 example_env (t0 + 3 * Hour + 15 * Minute) = ''2017-12-01T03:15:00Z''"
    by (simp add: example_env_def example_format_def Hour_def Minute_def)
  have ord: "plan_order ''k8s-fw-default-app'' (tr_tpName example_tree) True
      (tr_certificates example_tree) (tr_services example_tree) (tr_umname example_tree) =
     [(''/job/target-http-proxies/delete'', ''k8s-tps-default-app''),
      (''/job/ssl-certificates/delete'', ''k8s-ssl-app''),
      (''/job/backend-services/delete'', ''k8s-be-app''),
      (''/job/health-checks/delete'', ''k8s-hc-app''),
      (''/job/url-maps/delete'', ''k8s-um-app''),
      (''/job/forwarding-rules/delete'', ''k8s-fw-default-app'')]"
    by (simp add: plan_order_def example_tree_def example_service_def
        ParseSslCertificates_def ParseHealthChecks_def parseURL_def HasPrefix_def slice_def)
  have len: "length example_plan = 6"
    by (simp add: example_plan_def)
  from plan_is_ordered_and_shares_one_expiry [OF example_resolves h2 h3] fmt
  have "map (\<lambda>t. FormValue (task_params t) ''expires'') example_plan =
          replicate (length example_plan) ''2017-12-01T03:15:00Z''"
    by (simp add: map_replicate_const [symmetric])
  with plan_is_ordered_and_shares_one_expiry [OF example_resolves h2 h3] ord len
    example_resolves h2 h3
  show ?thesis
    by simp
qed

text \<open>
  Claim C9. When the creation timestamp of the proxy does not parse, the zero time stands
  for it; whenever now is at least one hour after the zero time the grace window does
  not apply, the tree is classified by its instances alone, and with no instance the
  plan is queued.
\<close>

theorem unparsable_timestamp_counts_as_old:
  assumes "resolves_to env tpname isHTTPs tr"
    and "ParseRFC3339 env (tr_timestamp tr) = None"
    and "zeroTime + Hour \<le> now1"
  shows "\<exists>tasks.
           checkAndDeleteTargetProxiesIfApplicable env now1 now2 fwname region tpname isHTTPs =
             Inr tasks \<and>
           (tasks \<noteq> [] \<longleftrightarrow> instance_total env (tr_services tr) = 0) \<and>
           (instance_total env (tr_services tr) = 0 \<longrightarrow>
              tasks = planTasks env now2 fwname region (tr_tpName tr) isHTTPs
                        (tr_certificates tr) (tr_services tr) (tr_umname tr))"
  using assms(2,3)
  by (simp add: check_resolved [OF assms(1)] After_def planTasks_not_empty)

theorem unparsable_timestamp_counts_as_old_witness:
  "resolves_to example_env_undated ''k8s-tps-default-app'' True example_tree_undated \<and>
   ParseRFC3339 example_env_undated (tr_timestamp example_tree_undated) = None \<and>
   zeroTime + Hour \<le> t0 \<and>
   instance_total example_env_undated (tr_services example_tree_undated) = 0 \<and>
   (\<exists>tasks.
      checkAndDeleteTargetProxiesIfApplicable example_env_undated t0 t0
        ''k8s-fw-default-app'' ''global'' ''k8s-tps-default-app'' True = Inr tasks \<and>
      tasks \<noteq> [])"
proof -
  have h1: "resolves_to example_env_undated ''k8s-tps-default-app'' True example_tree_undated"
    by (simp add: resolves_to_def example_env_undated_def example_tree_undated_def
        example_env_def example_tree_def getTargetProxy_def example_proxy_def
        example_url_map_def example_service_def FindBackendServices_def ParseUrlMap_def
        ParseService_def ParseInstanceGroup_def parseURL_def HasPrefix_def slice_def)
  have h2: "ParseRFC3339 example_env_undated (tr_timestamp example_tree_undated) = None"
    by (simp add: example_env_undated_def example_tree_undated_def example_env_def
        example_parse_def)
  have h3: "zeroTime + Hour \<le> t0"
    by (simp add: zeroTime_def Hour_def Minute_def t0_def)
  have h4: "instance_total example_env_undated (tr_services example_tree_undated) = 0"
    using example_total
    by (simp add: instance_total_def group_instance_count_def example_env_undated_def
        example_tree_undated_def)
  from unparsable_timestamp_counts_as_old [OF h1 h2 h3, of t0 "''k8s-fw-default-app''"
      "''global''"] h4
  have "\<exists>tasks.
      checkAndDeleteTargetProxiesIfApplicable example_env_undated t0 t0
        ''k8s-fw-default-app'' ''global'' ''k8s-tps-default-app'' True = Inr tasks \<and>
      tasks \<noteq> []"
    by auto
  with h1 h2 h3 h4 show ?thesis
    by blast
qed

section \<open>Properties of the firewall pass\<close>

lemma entries_Nil [simp]: "entries [] = []"
  by (simp add: entries_def)

lemma entries_Cons [simp]: "entries ((tag, fws) # m) = map (Pair tag) fws @ entries m"
  by (simp add: entries_def)

lemma concat_snd_entries: "concat (map snd m) = map snd (entries m)"
  by (induction m) (auto simp: comp_def)

lemma mset_entries_mapAppend:
  "mset (entries (mapAppend m tag fw)) = mset (entries m) + {#(tag, fw)#}"
  by (induction m tag fw rule: mapAppend.induct) auto

lemma mset_entries_mapDelete:
  "mset (entries (mapDelete m tag)) = {#e \<in># mset (entries m). fst e \<noteq> tag#}"
proof (induction m tag rule: mapDelete.induct)
  case (1 tag)
  then show ?case by simp
next
  case (2 k fws m tag)
  have "{#e \<in># mset (map (Pair k) fws). fst e \<noteq> tag#} =
          (if k = tag then {#} else mset (map (Pair k) fws))"
    by (induction fws) auto
  with 2 show ?case by simp
qed

lemma mset_entries_perm:
  assumes "mset m' = mset m"
  shows "mset (entries m') = mset (entries m)"
proof -
  have "mset (entries m) = (\<Sum>e\<in>#mset m. mset (map (Pair (fst e)) (snd e)))" for m :: tags2fws
    by (induction m) auto
  with assms show ?thesis by simp
qed

lemma mset_entries_addTargetTags:
  "mset (entries (addTargetTags fw tags m)) =
     mset (entries m) + mset (map (\<lambda>tag. (tag, fw)) (filter (\<lambda>tag. HasPrefix tag ''gke-'') tags))"
  by (induction tags arbitrary: m) (auto simp: mset_entries_mapAppend)

lemma mset_entries_addFirewalls:
  "mset (entries (addFirewalls fws m)) =
     mset (entries m) +
     mset (concat (map (\<lambda>fw. map (\<lambda>tag. (tag, fw))
                               (filter (\<lambda>tag. HasPrefix tag ''gke-'') (fw_TargetTags fw))) fws))"
  by (induction fws arbitrary: m) (auto simp: mset_entries_addTargetTags)

lemma mset_entries_dropTags:
  "mset (entries (dropTags tags m)) =
     {#e \<in># mset (entries m). \<not> (HasPrefix (fst e) ''gke-'' \<and> fst e \<in> set tags)#}"
proof (induction tags arbitrary: m)
  case Nil
  then show ?case by simp
next
  case (Cons tag tags)
  show ?case
  proof (cases "HasPrefix tag ''gke-''")
    case True
    then show ?thesis
      by (intro multiset_eqI) (auto simp: Cons.IH mset_entries_mapDelete)
  next
    case False
    then show ?thesis
      by (intro multiset_eqI) (auto simp: Cons.IH)
  qed
qed

lemma mset_entries_dropInstances:
  "mset (entries (dropInstances instances m)) =
     {#e \<in># mset (entries m).
        \<not> (HasPrefix (fst e) ''gke-'' \<and> fst e \<in> set (concat (map inst_Tags instances)))#}"
proof (induction instances arbitrary: m)
  case Nil
  then show ?case by simp
next
  case (Cons inst instances)
  show ?case
    by (intro multiset_eqI) (auto simp: Cons.IH mset_entries_dropTags)
qed

lemma mset_entries_scanZones:
  assumes "scanZones env zones m = Inr m'"
  shows "mset (entries m') =
           {#e \<in># mset (entries m).
              \<not> (HasPrefix (fst e) ''gke-'' \<and> fst e \<in> set (observed_tags env zones))#}"
  using assms
proof (induction zones arbitrary: m)
  case Nil
  then show ?case by (simp add: observed_tags_def)
next
  case (Cons zone zones)
  show ?case
  proof (cases "m = []")
    case True
    with Cons.prems show ?thesis by simp
  next
    case False
    with Cons.prems obtain instances where
      l: "InstancesList env zone = Inr instances" and
      r: "scanZones env zones (dropInstances instances m) = Inr m'"
      by (auto split: sum.splits)
    have z: "observed_tags env (zone # zones) =
               concat (map inst_Tags instances) @ observed_tags env zones"
      by (simp add: observed_tags_def zone_instances_def l)
    show ?thesis
      unfolding Cons.IH [OF r] mset_entries_dropInstances z
      by (intro multiset_eqI) auto
  qed
qed

lemma scanZones_succeeds:
  assumes "\<forall>zone \<in> set zones. \<not> isl (InstancesList env zone)"
  shows "\<exists>m'. scanZones env zones m = Inr m'"
  using assms
  by (induction zones arbitrary: m) (auto split: sum.splits)

lemma dangling_of_entries:
  "map snd (filter (\<lambda>e. \<not> (HasPrefix (fst e) ''gke-'' \<and> fst e \<in> set (observed_tags env zones)))
      (concat (map (\<lambda>fw. map (\<lambda>tag. (tag, fw))
                  (filter (\<lambda>tag. HasPrefix tag ''gke-'') (fw_TargetTags fw))) items))) =
   concat (map (\<lambda>fw. map (\<lambda>tag. fw) (filter (dangling_tag env zones) (fw_TargetTags fw)))
             items)"
proof (induction items)
  case Nil
  then show ?case by simp
next
  case (Cons fw items)
  have "filter (\<lambda>tag. \<not> (HasPrefix tag ''gke-'' \<and> tag \<in> set (observed_tags env zones)))
          (filter (\<lambda>tag. HasPrefix tag ''gke-'') tags) =
        filter (dangling_tag env zones) tags" for tags
    by (induction tags) (auto simp: dangling_tag_def)
  with Cons show ?case
    by (simp add: filter_map comp_def)
qed

text \<open>
  The result of \<open>ListDanglingFirewalls\<close> when no listing fails: every listed firewall,
  once for each of its target tags that is controller-generated and observed on no
  instance, in some order.
\<close>

lemma ListDanglingFirewalls_mset:
  assumes "FirewallsList env = Inr items"
    and "ZonesList env = Inr zones"
    and "\<forall>zone \<in> set zones. \<not> isl (InstancesList env zone)"
    and "\<forall>m. mset (RangeOrder env m) = mset m"
  shows "\<exists>ret. ListDanglingFirewalls env = Inr ret \<and>
           mset ret =
             mset (concat (map (\<lambda>fw. map (\<lambda>tag. fw)
                     (filter (dangling_tag env zones) (fw_TargetTags fw))) items))"
proof -
  from scanZones_succeeds [OF assms(3)] obtain m' where
    m': "scanZones env zones (addFirewalls items []) = Inr m'" by blast
  have ret: "ListDanglingFirewalls env = Inr (concat (map snd (RangeOrder env m')))"
    by (simp add: ListDanglingFirewalls_def assms(1,2) m')
  have "mset (concat (map snd (RangeOrder env m'))) =
          image_mset snd (mset (entries (RangeOrder env m')))"
    by (simp add: concat_snd_entries)
  also have "mset (entries (RangeOrder env m')) = mset (entries m')"
    using assms(4) by (intro mset_entries_perm) simp
  also have "mset (entries m') =
      mset (filter (\<lambda>e. \<not> (HasPrefix (fst e) ''gke-'' \<and> fst e \<in> set (observed_tags env zones)))
        (concat (map (\<lambda>fw. map (\<lambda>tag. (tag, fw))
                  (filter (\<lambda>tag. HasPrefix tag ''gke-'') (fw_TargetTags fw))) items)))"
    by (simp add: mset_entries_scanZones [OF m'] mset_entries_addFirewalls)
  also have "image_mset snd \<dots> =
      mset (concat (map (\<lambda>fw. map (\<lambda>tag. fw)
                     (filter (dangling_tag env zones) (fw_TargetTags fw))) items))"
    unfolding mset_map [symmetric] dangling_of_entries ..
  finally show ?thesis
    using ret by blast
qed

lemma count_list_repeated:
  "count_list (concat (map (\<lambda>x. map (\<lambda>y. x) (f x)) xs)) a = count_list xs a * length (f a)"
proof (induction xs)
  case Nil
  then show ?case by simp
next
  case (Cons x xs)
  have "count_list (map (\<lambda>y. x) ys) a = (if x = a then length ys else 0)" for ys :: "'b list"
    by (induction ys) auto
  with Cons show ?case by simp
qed

lemma set_repeated:
  "set (concat (map (\<lambda>x. map (\<lambda>y. x) (filter P (g x))) xs)) =
     {x \<in> set xs. \<exists>y \<in> set (g x). P y}"
  by (induction xs) auto

lemma deleteFirewalls_all_succeed:
  assumes "\<forall>issued n. FirewallsDeleteDo env issued n = None"
  shows "deleteFirewalls env fws issued =
           \<lparr>resp_status = 204, resp_calls = map FirewallsDelete (issued @ map fw_Name fws)\<rparr>"
  using assms by (induction fws arbitrary: issued) auto

lemma deleteFirewalls_repeats:
  assumes "\<forall>issued n. n \<notin> set issued \<longrightarrow> FirewallsDeleteDo env issued n = None"
    and "\<not> distinct (issued @ map fw_Name fws)"
  shows "\<not> distinct (resp_calls (deleteFirewalls env fws issued))"
  using assms(2)
proof (induction fws arbitrary: issued)
  case Nil
  then show ?case by (simp add: distinct_map)
next
  case (Cons fw fws)
  show ?case
  proof (cases "FirewallsDeleteDo env issued (fw_Name fw)")
    case None
    with Cons.IH [of "issued @ [fw_Name fw]"] Cons.prems show ?thesis
      by simp
  next
    case (Some err)
    with assms(1) have "fw_Name fw \<in> set issued"
      by (metis option.distinct(1))
    with Some show ?thesis
      by (simp add: distinct_map)
  qed
qed

text \<open>
  Claim C8, as the code has it. When no listing and no delete fails, the pass answers 204
  and the rules it deletes are exactly the listed rules with at least one target tag
  that is controller-generated and observed on no instance of any zone. So such a tag
  makes the pass delete every rule keyed by it, and a rule is left alone when every
  controller-generated tag that keys it is observed on an instance; a rule keyed by a
  tag that is observed and by one that is not is deleted.
\<close>

theorem deleted_rules_are_those_keyed_by_a_dangling_tag:
  assumes "AppengineAppOk env"
    and "FirewallsList env = Inr items"
    and "ZonesList env = Inr zones"
    and "\<forall>zone \<in> set zones. \<not> isl (InstancesList env zone)"
    and "\<forall>m. mset (RangeOrder env m) = mset m"
    and "\<forall>issued n. FirewallsDeleteDo env issued n = None"
  shows "resp_status (httpFirewallsCheck env) = 204 \<and>
         set (resp_calls (httpFirewallsCheck env)) =
           (\<lambda>fw. FirewallsDelete (fw_Name fw)) `
             {fw \<in> set items. \<exists>tag \<in> set (fw_TargetTags fw). dangling_tag env zones tag}"
proof -
  from ListDanglingFirewalls_mset [OF assms(2-5)] obtain ret where
    ret: "ListDanglingFirewalls env = Inr ret" and
    m: "mset ret = mset (concat (map (\<lambda>fw. map (\<lambda>tag. fw)
                     (filter (dangling_tag env zones) (fw_TargetTags fw))) items))"
    by blast
  from m have "set ret = set (concat (map (\<lambda>fw. map (\<lambda>tag. fw)
                     (filter (dangling_tag env zones) (fw_TargetTags fw))) items))"
    by (rule mset_eq_setD)
  then have s: "set ret =
      {fw \<in> set items. \<exists>tag \<in> set (fw_TargetTags fw). dangling_tag env zones tag}"
    unfolding set_repeated .
  have "httpFirewallsCheck env =
          \<lparr>resp_status = 204, resp_calls = map FirewallsDelete (map fw_Name ret)\<rparr>"
    using deleteFirewalls_all_succeed [OF assms(6), of ret "[]"]
    by (simp add: httpFirewallsCheck_def assms(1) ret)
  then show ?thesis
    using s by (auto simp: image_iff)
qed

theorem deleted_rules_are_those_keyed_by_a_dangling_tag_witness:
  "AppengineAppOk example_env \<and>
   FirewallsList example_env = Inr example_firewalls \<and>
   ZonesList example_env = Inr [''z1'', ''z2''] \<and>
   \<not> isl (InstancesList example_env ''z1'') \<and>
   \<not> isl (InstancesList example_env ''z2'') \<and>
   (\<forall>m. mset (RangeOrder example_env m) = mset m) \<and>
   (\<forall>issued n. FirewallsDeleteDo example_env issued n = None) \<and>
   resp_status (httpFirewallsCheck example_env) = 204 \<and>
   set (resp_calls (httpFirewallsCheck example_env)) =
     {FirewallsDelete ''fw-ab'', FirewallsDelete ''fw-cd''}"
proof -
  have h1: "AppengineAppOk example_env"
    by (simp add: example_env_def)
  have h2: "FirewallsList example_env = Inr example_firewalls"
    by (simp add: example_env_def)
  have h3: "ZonesList example_env = Inr [''z1'', ''z2'']"
    by (simp add: example_env_def)
  have h4: "\<forall>zone \<in> set [''z1'', ''z2'']. \<not> isl (InstancesList example_env zone)"
    by (simp add: example_env_def)
  have h5: "\<forall>m. mset (RangeOrder example_env m) = mset m"
    by (simp add: example_env_def)
  have h6: "\<forall>issued n. FirewallsDeleteDo example_env issued n = None"
    by (simp add: example_env_def)
  have d: "{fw \<in> set example_firewalls.
             \<exists>tag \<in> set (fw_TargetTags fw). dangling_tag example_env [''z1'', ''z2''] tag} =
           {\<lparr>fw_Name = ''fw-ab'', fw_TargetTags = [''gke-a-node'', ''gke-b-node'']\<rparr>,
            \<lparr>fw_Name = ''fw-cd'', fw_TargetTags = [''gke-c-node'', ''gke-d-node'']\<rparr>}"
    by (auto simp: example_firewalls_def dangling_tag_def observed_tags_def zone_instances_def
        example_env_def HasPrefix_def)
  from deleted_rules_are_those_keyed_by_a_dangling_tag [OF h1 h2 h3 h4 h5 h6]
  have "resp_status (httpFirewallsCheck example_env) = 204 \<and>
        set (resp_calls (httpFirewallsCheck example_env)) =
          {FirewallsDelete ''fw-ab'', FirewallsDelete ''fw-cd''}"
    unfolding d by simp
  with h1 h2 h3 h4 h5 h6 show ?thesis
    by simp
qed

text \<open>
  Claim C8, as stated, fails: in the example world the tag \<open>gke-a-node\<close> is observed on
  an instance of zone \<open>z2\<close>, the rule \<open>fw-ab\<close> is keyed by it, and the pass
  deletes \<open>fw-ab\<close> (its other tag, \<open>gke-b-node\<close>, is on no instance).
\<close>

theorem rule_keyed_by_a_live_tag_is_deleted:
  "FirewallsList example_env = Inr example_firewalls \<and>
   \<lparr>fw_Name = ''fw-ab'', fw_TargetTags = [''gke-a-node'', ''gke-b-node'']\<rparr>
     \<in> set example_firewalls \<and>
   ZonesList example_env = Inr [''z1'', ''z2''] \<and>
   InstancesList example_env ''z2'' = Inr [\<lparr>inst_Tags = [''gke-a-node'', ''http'']\<rparr>] \<and>
   ''gke-a-node'' \<in> set (observed_tags example_env [''z1'', ''z2'']) \<and>
   FirewallsDelete ''fw-ab'' \<in> set (resp_calls (httpFirewallsCheck example_env))"
  by (simp add: example_env_def example_firewalls_def observed_tags_def zone_instances_def
      httpFirewallsCheck_def ListDanglingFirewalls_def HasPrefix_def)


text \<open>
  Claim C10. A listed rule is returned by \<open>ListDanglingFirewalls\<close> once for each of
  its target tags that is controller-generated and observed on no instance. With two
  such tags it is returned at least twice, and the pass then issues a delete call it has
  already issued (as long as the first delete of every rule succeeds); when every delete
  succeeds, the rule itself is deleted at least twice.
\<close>

theorem rule_is_returned_once_per_dangling_tag:
  assumes "AppengineAppOk env"
    and "FirewallsList env = Inr items"
    and "ZonesList env = Inr zones"
    and "\<forall>zone \<in> set zones. \<not> isl (InstancesList env zone)"
    and "\<forall>m. mset (RangeOrder env m) = mset m"
    and "\<forall>issued n. n \<notin> set issued \<longrightarrow> FirewallsDeleteDo env issued n = None"
    and "fw \<in> set items"
    and "2 \<le> length (filter (dangling_tag env zones) (fw_TargetTags fw))"
  shows "\<exists>ret. ListDanglingFirewalls env = Inr ret \<and>
           count_list ret fw =
             count_list items fw * length (filter (dangling_tag env zones) (fw_TargetTags fw)) \<and>
           2 \<le> count_list ret fw \<and>
           \<not> distinct (resp_calls (httpFirewallsCheck env)) \<and>
           ((\<forall>issued n. FirewallsDeleteDo env issued n = None) \<longrightarrow>
              2 \<le> count_list (resp_calls (httpFirewallsCheck env)) (FirewallsDelete (fw_Name fw)))"
proof -
  from ListDanglingFirewalls_mset [OF assms(2-5)] obtain ret where
    ret: "ListDanglingFirewalls env = Inr ret" and
    m: "mset ret = mset (concat (map (\<lambda>fw. map (\<lambda>tag. fw)
                     (filter (dangling_tag env zones) (fw_TargetTags fw))) items))"
    by blast
  have "count_list ret fw = count (mset ret) fw"
    by (simp add: count_mset)
  also have "\<dots> = count_list (concat (map (\<lambda>fw. map (\<lambda>tag. fw)
                     (filter (dangling_tag env zones) (fw_TargetTags fw))) items)) fw"
    unfolding m by (simp add: count_mset)
  also have "\<dots> =
      count_list items fw * length (filter (dangling_tag env zones) (fw_TargetTags fw))"
    by (rule count_list_repeated)
  finally have c: "count_list ret fw =
      count_list items fw * length (filter (dangling_tag env zones) (fw_TargetTags fw))" .
  have "1 \<le> count_list items fw"
    using assms(7) count_list_0_iff [of items fw] by (cases "count_list items fw") auto
  with assms(8) have "2 * 1 \<le> length (filter (dangling_tag env zones) (fw_TargetTags fw)) * count_list items fw"
    by (intro mult_le_mono) auto
  with c have two: "2 \<le> count_list ret fw"
    by (simp add: mult.commute)
  have "count_list xs fw \<le> 1" if "distinct xs" for xs
    using that by (induction xs) auto
  with two have "\<not> distinct ret"
    by fastforce
  then have "\<not> distinct (map fw_Name ret)"
    by (auto simp: distinct_map)
  then have nd: "\<not> distinct (resp_calls (httpFirewallsCheck env))"
    using deleteFirewalls_repeats [OF assms(6), of "[]" ret]
    by (simp add: httpFirewallsCheck_def assms(1) ret)
  have "2 \<le> count_list (resp_calls (httpFirewallsCheck env)) (FirewallsDelete (fw_Name fw))"
    if all: "\<forall>issued n. FirewallsDeleteDo env issued n = None"
  proof -
    have "resp_calls (httpFirewallsCheck env) = map (\<lambda>fw. FirewallsDelete (fw_Name fw)) ret"
      using deleteFirewalls_all_succeed [OF all, of ret "[]"]
      by (simp add: httpFirewallsCheck_def assms(1) ret)
    with two show ?thesis
      using count_list_map_ge [of ret fw "\<lambda>fw. FirewallsDelete (fw_Name fw)"] by simp
  qed
  with ret c two nd show ?thesis
    by blast
qed

theorem rule_is_returned_once_per_dangling_tag_witness:
  "AppengineAppOk example_env \<and>
   FirewallsList example_env = Inr example_firewalls \<and>
   ZonesList example_env = Inr [''z1'', ''z2''] \<and>
   \<not> isl (InstancesList example_env ''z1'') \<and>
   \<not> isl (InstancesList example_env ''z2'') \<and>
   (\<forall>m. mset (RangeOrder example_env m) = mset m) \<and>
   (\<forall>issued n. FirewallsDeleteDo example_env issued n = None) \<and>
   \<lparr>fw_Name = ''fw-cd'', fw_TargetTags = [''gke-c-node'', ''gke-d-node'']\<rparr>
     \<in> set example_firewalls \<and>
   filter (dangling_tag example_env [''z1'', ''z2'']) [''gke-c-node'', ''gke-d-node''] =
     [''gke-c-node'', ''gke-d-node''] \<and>
   (\<exists>ret. ListDanglingFirewalls example_env = Inr ret \<and>
      count_list ret \<lparr>fw_Name = ''fw-cd'', fw_TargetTags = [''gke-c-node'', ''gke-d-node'']\<rparr>
        = 2) \<and>
   \<not> distinct (resp_calls (httpFirewallsCheck example_env)) \<and>
   2 \<le> count_list (resp_calls (httpFirewallsCheck example_env)) (FirewallsDelete ''fw-cd'')"
proof -
  let ?fw = "\<lparr>fw_Name = ''fw-cd'', fw_TargetTags = [''gke-c-node'', ''gke-d-node'']\<rparr>"
  have h1: "AppengineAppOk example_env"
    by (simp add: example_env_def)
  have h2: "FirewallsList example_env = Inr example_firewalls"
    by (simp add: example_env_def)
  have h3: "ZonesList example_env = Inr [''z1'', ''z2'']"
    by (simp add: example_env_def)
  have h4: "\<forall>zone \<in> set [''z1'', ''z2'']. \<not> isl (InstancesList example_env zone)"
    by (simp add: example_env_def)
  have h5: "\<forall>m. mset (RangeOrder example_env m) = mset m"
    by (simp add: example_env_def)
  have h6: "\<forall>issued n. n \<notin> set issued \<longrightarrow> FirewallsDeleteDo example_env issued n = None"
    by (simp add: example_env_def)
  have h6': "\<forall>issued n. FirewallsDeleteDo example_env issued n = None"
    by (simp add: example_env_def)
  have h7: "?fw \<in> set example_firewalls"
    by (simp add: example_firewalls_def)
  have f: "filter (dangling_tag example_env [''z1'', ''z2'']) [''gke-c-node'', ''gke-d-node''] =
             [''gke-c-node'', ''gke-d-node'']"
    by (simp add: dangling_tag_def observed_tags_def zone_instances_def example_env_def
        HasPrefix_def)
  have h8: "2 \<le> length (filter (dangling_tag example_env [''z1'', ''z2'']) (fw_TargetTags ?fw))"
    by (simp add: dangling_tag_def observed_tags_def zone_instances_def example_env_def
        HasPrefix_def)
  have c: "count_list example_firewalls ?fw = 1"
    by (simp add: example_firewalls_def)
  from rule_is_returned_once_per_dangling_tag [OF h1 h2 h3 h4 h5 h6 h7 h8] h6' f c
  have "(\<exists>ret. ListDanglingFirewalls example_env = Inr ret \<and> count_list ret ?fw = 2) \<and>
        \<not> distinct (resp_calls (httpFirewallsCheck example_env)) \<and>
        2 \<le> count_list (resp_calls (httpFirewallsCheck example_env)) (FirewallsDelete ''fw-cd'')"
    by auto
  with h1 h2 h3 h4 h5 h6' h7 f show ?thesis
    by simp
qed

end
